theory Spec2Isabelle
  imports Main "HOL-Library.Multiset" "HOL-Library.Word"
begin

section \<open>The "compliance results" command of jx\<close>

text \<open>
  A shallow embedding of \<^verbatim>\<open>pkg/jx/cmd/compliance_results.go\<close>: \<open>Run\<close>,
  \<open>untarResults\<close>, \<open>filterTests\<close>, \<open>printResults\<close>, \<open>status\<close> and the methods of
  \<open>StatusSortedTestCases\<close> are definitions below, under their own names. What the
  file imports from other packages (the compliance client, \<^verbatim>\<open>archive/tar\<close>,
  \<^verbatim>\<open>compress/gzip\<close>, \<^verbatim>\<open>sort\<close>, \<^verbatim>\<open>errgroup\<close>, the predicates of sonobuoy, the
  table writer) is not part of the file: it enters the model as a parameter, or as a
  small model that says so.
\<close>

subsection \<open>Test-case records and their status\<close>

text \<open>
  \<^verbatim>\<open>reporters.JUnitTestCase\<close> is a struct of ginkgo. This file reads its field
  \<^verbatim>\<open>Name\<close> only; the other fields are the extension part of the record, which the
  predicates of sonobuoy's package \<^verbatim>\<open>results\<close> inspect.
\<close>

record JUnitTestCase =
  Name :: string

type_synonym 'x testcase = "'x JUnitTestCase_scheme"

text \<open>
  The three predicates \<^verbatim>\<open>results.Skipped\<close>, \<^verbatim>\<open>results.Failed\<close>,
  \<^verbatim>\<open>results.Passed\<close> of sonobuoy: parameters of the model.
\<close>

record 'tc results_pkg =
  Skipped :: "'tc \<Rightarrow> bool"
  Failed :: "'tc \<Rightarrow> bool"
  Passed :: "'tc \<Rightarrow> bool"

text \<open>
  \<^verbatim>\<open>
  func status(junitResult reporters.JUnitTestCase) string {
      if results.Skipped(junitResult) { return "SKIPPED" }
      else if results.Failed(junitResult) { return "FAILED" }
      else if results.Passed(junitResult) { return "PASSED" }
      else { return "UNKNOWN" }
  }
  \<close>
\<close>

definition status :: "'tc results_pkg \<Rightarrow> 'tc \<Rightarrow> string" where
  "status results junitResult =
     (if Skipped results junitResult then ''SKIPPED''
      else if Failed results junitResult then ''FAILED''
      else if Passed results junitResult then ''PASSED''
      else ''UNKNOWN'')"

text \<open>
  \<^verbatim>\<open>var statuses = map[string]int{"FAILED": 0, "PASSED": 1, "SKIPPED": 2, "UNKNOWN": 3}\<close>
\<close>

definition statuses :: "string \<rightharpoonup> int" where
  "statuses = [''FAILED'' \<mapsto> 0, ''PASSED'' \<mapsto> 1, ''SKIPPED'' \<mapsto> 2, ''UNKNOWN'' \<mapsto> 3]"

text \<open>
  Go's index expression \<^verbatim>\<open>statuses[k]\<close>: the value stored under the key, and the
  zero value of \<^verbatim>\<open>int\<close> when the key is missing.
\<close>

definition statuses_index :: "string \<Rightarrow> int" where
  "statuses_index k = (case statuses k of Some v \<Rightarrow> v | None \<Rightarrow> 0)"

subsection \<open>StatusSortedTestCases\<close>

text \<open>
  \<^verbatim>\<open>
  type StatusSortedTestCases []reporters.JUnitTestCase
  func (s StatusSortedTestCases) Len() int { return len(s) }
  func (s StatusSortedTestCases) Less(i, j int) bool {
      si := statuses[status(s[i])]
      sj := statuses[status(s[j])]
      return si < sj
  }
  func (s StatusSortedTestCases) Swap(i, j int) { s[i], s[j] = s[j], s[i] }
  \<close>
  The receiver is given by the elements of its backing array. An index out of range
  panics in Go: \<open>Less\<close> and \<open>Swap\<close> return \<open>None\<close> there.
\<close>

definition Len :: "'tc list \<Rightarrow> nat" where
  "Len s = length s"

definition Less :: "'tc results_pkg \<Rightarrow> 'tc list \<Rightarrow> nat \<Rightarrow> nat \<Rightarrow> bool option" where
  "Less results s i j =
     (if i < length s \<and> j < length s
      then (let si = statuses_index (status results (s ! i));
                sj = statuses_index (status results (s ! j))
            in Some (si < sj))
      else None)"

definition Swap :: "'tc list \<Rightarrow> nat \<Rightarrow> nat \<Rightarrow> 'tc list option" where
  "Swap s i j =
     (if i < length s \<and> j < length s
      then Some (s[i := s ! j, j := s ! i])
      else None)"

text \<open>
  Modelled external: \<^verbatim>\<open>sort.Sort(data)\<close> of Go's standard library, which is not
  among the sources. It reads and changes \<open>data\<close> only through the methods
  \<^verbatim>\<open>Len\<close>, \<^verbatim>\<open>Less\<close> and \<^verbatim>\<open>Swap\<close> of its argument. The library sorts a
  short slice by insertion sort:
  \<^verbatim>\<open>
  func insertionSort(data Interface, a, b int) {
      for i := a + 1; i < b; i++ {
          for j := i; j > a && data.Less(j, j-1); j-- {
              data.Swap(j, j-1)
          }
      }
  }
  \<close>
  and a longer one by a quicksort that leaves its short pieces to this function. The
  model runs the insertion sort on the whole slice, whatever its length. A panic of
  \<^verbatim>\<open>Less\<close> or \<^verbatim>\<open>Swap\<close> (the result \<open>None\<close>) ends the sort with that panic.
\<close>

function insertionSort_inner ::
  "('s \<Rightarrow> nat \<Rightarrow> nat \<Rightarrow> bool option) \<Rightarrow> ('s \<Rightarrow> nat \<Rightarrow> nat \<Rightarrow> 's option)
     \<Rightarrow> 's \<Rightarrow> nat \<Rightarrow> nat \<Rightarrow> 's option" where
  "insertionSort_inner data_Less data_Swap data a j =
     (if j > a
      then (case data_Less data j (j - 1) of
              None \<Rightarrow> None
            | Some False \<Rightarrow> Some data
            | Some True \<Rightarrow>
                (case data_Swap data j (j - 1) of
                   None \<Rightarrow> None
                 | Some data' \<Rightarrow> insertionSort_inner data_Less data_Swap data' a (j - 1)))
      else Some data)"
  by pat_completeness auto
termination
  by (relation "measure (\<lambda>(data_Less, data_Swap, data, a, j). j)") auto

function insertionSort_outer ::
  "('s \<Rightarrow> nat \<Rightarrow> nat \<Rightarrow> bool option) \<Rightarrow> ('s \<Rightarrow> nat \<Rightarrow> nat \<Rightarrow> 's option)
     \<Rightarrow> 's \<Rightarrow> nat \<Rightarrow> nat \<Rightarrow> nat \<Rightarrow> 's option" where
  "insertionSort_outer data_Less data_Swap data a i b =
     (if i < b
      then (case insertionSort_inner data_Less data_Swap data a i of
              None \<Rightarrow> None
            | Some data' \<Rightarrow> insertionSort_outer data_Less data_Swap data' a (i + 1) b)
      else Some data)"
  by pat_completeness auto
termination
  by (relation "measure (\<lambda>(data_Less, data_Swap, data, a, i, b). b - i)") auto

declare insertionSort_inner.simps [simp del] insertionSort_outer.simps [simp del]

definition insertionSort ::
  "('s \<Rightarrow> nat \<Rightarrow> nat \<Rightarrow> bool option) \<Rightarrow> ('s \<Rightarrow> nat \<Rightarrow> nat \<Rightarrow> 's option)
     \<Rightarrow> 's \<Rightarrow> nat \<Rightarrow> nat \<Rightarrow> 's option" where
  "insertionSort data_Less data_Swap data a b =
     insertionSort_outer data_Less data_Swap data a (a + 1) b"

definition sort_Sort ::
  "('s \<Rightarrow> nat) \<Rightarrow> ('s \<Rightarrow> nat \<Rightarrow> nat \<Rightarrow> bool option) \<Rightarrow> ('s \<Rightarrow> nat \<Rightarrow> nat \<Rightarrow> 's option)
     \<Rightarrow> 's \<Rightarrow> 's option" where
  "sort_Sort data_Len data_Less data_Swap data =
     (let n = data_Len data
      in insertionSort data_Less data_Swap data 0 n)"

text \<open>
  Whatever the library's algorithm, what it leaves is reached from \<open>data\<close> by calls of
  \<open>Swap\<close>, and no element of it is \<open>Less\<close> than an element before it. \<open>apply_swaps\<close>
  replays such calls, and \<open>sorted_by_Less\<close> is the order.
\<close>

fun apply_swaps :: "'tc list \<Rightarrow> (nat \<times> nat) list \<Rightarrow> 'tc list option" where
  "apply_swaps s [] = Some s"
| "apply_swaps s ((i, j) # calls) =
     (case Swap s i j of None \<Rightarrow> None | Some s' \<Rightarrow> apply_swaps s' calls)"

definition sorted_by_Less :: "'tc results_pkg \<Rightarrow> 'tc list \<Rightarrow> bool" where
  "sorted_by_Less results s = (\<forall>j<Len s. \<forall>i<j. Less results s j i = Some False)"

subsection \<open>Slices in memory\<close>

text \<open>
  A Go slice refers to a backing array. The store lists the backing arrays allocated so
  far, by address; a slice is \<open>nil\<close> or refers to one of them, and spans all of it.
  \<^verbatim>\<open>make([]T, 0)\<close> allocates an empty array. The slices of the model have no spare
  capacity, so every \<^verbatim>\<open>append\<close> allocates a new array that holds the old elements
  and the new one, and leaves every array allocated before as it was. (Go may give the
  new array spare capacity and fill it in place on a later \<^verbatim>\<open>append\<close>; only the
  slice appended to can see that.)
\<close>

type_synonym 'a store = "'a list list"

datatype slice = nil | Slice nat

definition elems :: "'a store \<Rightarrow> slice \<Rightarrow> 'a list" where
  "elems h s = (case s of nil \<Rightarrow> [] | Slice a \<Rightarrow> h ! a)"

definition valid_slice :: "'a store \<Rightarrow> slice \<Rightarrow> bool" where
  "valid_slice h s = (case s of nil \<Rightarrow> True | Slice a \<Rightarrow> a < length h)"

definition make_slice :: "'a store \<Rightarrow> 'a store \<times> slice" where
  "make_slice h = (h @ [[]], Slice (length h))"

definition append_slice :: "'a store \<Rightarrow> slice \<Rightarrow> 'a \<Rightarrow> 'a store \<times> slice" where
  "append_slice h s x = (h @ [elems h s @ [x]], Slice (length h))"

subsection \<open>filterTests\<close>

text \<open>
  \<^verbatim>\<open>
  func filterTests(predicate func(testCase reporters.JUnitTestCase) bool,
                   testCases []reporters.JUnitTestCase) []reporters.JUnitTestCase {
      out := make([]reporters.JUnitTestCase, 0)
      for _, tc := range testCases {
          if predicate(tc) {
              out = append(out, tc)
          }
      }
      return out
  }
  \<close>
  The \<^verbatim>\<open>range\<close> loop takes the length of \<open>testCases\<close> once, and reads element
  \<open>i\<close> from the store in iteration \<open>i\<close>.
\<close>

function filterTests_range ::
  "('tc \<Rightarrow> bool) \<Rightarrow> slice \<Rightarrow> nat \<Rightarrow> nat \<Rightarrow> 'tc store \<Rightarrow> slice \<Rightarrow> 'tc store \<times> slice" where
  "filterTests_range predicate testCases i n h out =
     (if i < n
      then (let tc = elems h testCases ! i;
                (h', out') = (if predicate tc then append_slice h out tc else (h, out))
            in filterTests_range predicate testCases (i + 1) n h' out')
      else (h, out))"
  by pat_completeness auto
termination
  by (relation "measure (\<lambda>(predicate, testCases, i, n, h, out). n - i)") auto

definition filterTests :: "('tc \<Rightarrow> bool) \<Rightarrow> 'tc store \<Rightarrow> slice \<Rightarrow> 'tc store \<times> slice" where
  "filterTests predicate h testCases =
     (let (h0, out) = make_slice h
      in filterTests_range predicate testCases 0 (length (elems h testCases)) h0 out)"

subsection \<open>printResults\<close>

text \<open>
  Modelled from the spec: the table writer (\<^verbatim>\<open>o.CreateTable()\<close> and the methods
  \<^verbatim>\<open>SetColumnAlign\<close>, \<^verbatim>\<open>AddRow\<close>, \<^verbatim>\<open>Render\<close> of the table package) is not
  among the sources. A table is what has been given to it: the column alignments set,
  in the order of the calls, the rows added, in the order of the calls, and whether it
  has been rendered. The constant \<^verbatim>\<open>util.ALIGN_LEFT\<close> is a parameter.
\<close>

record 'al Table =
  ColumnAlign :: "(nat \<times> 'al) list"
  Rows :: "string list list"
  Rendered :: bool

definition CreateTable :: "'al Table" where
  "CreateTable = \<lparr>ColumnAlign = [], Rows = [], Rendered = False\<rparr>"

definition SetColumnAlign :: "'al Table \<Rightarrow> nat \<Rightarrow> 'al \<Rightarrow> 'al Table" where
  "SetColumnAlign table i align = table\<lparr>ColumnAlign := ColumnAlign table @ [(i, align)]\<rparr>"

definition AddRow :: "'al Table \<Rightarrow> string list \<Rightarrow> 'al Table" where
  "AddRow table cols = table\<lparr>Rows := Rows table @ [cols]\<rparr>"

definition Render :: "'al Table \<Rightarrow> 'al Table" where
  "Render table = table\<lparr>Rendered := True\<rparr>"

text \<open>
  \<^verbatim>\<open>
  func (o *ComplianceResultsOptions) printResults(junitResults []reporters.JUnitTestCase) {
      table := o.CreateTable()
      table.SetColumnAlign(1, util.ALIGN_LEFT)
      table.SetColumnAlign(2, util.ALIGN_LEFT)
      table.AddRow("STATUS", "TEST")
      for _, t := range junitResults {
          table.AddRow(status(t), t.Name)
      }
      table.Render()
  }
  \<close>
  The result is the table as rendered.
\<close>

fun printResults_range ::
  "'x testcase results_pkg \<Rightarrow> 'al Table \<Rightarrow> 'x testcase list \<Rightarrow> 'al Table" where
  "printResults_range results table [] = table"
| "printResults_range results table (t # junitResults) =
     printResults_range results (AddRow table [status results t, Name t]) junitResults"

definition printResults ::
  "'x testcase results_pkg \<Rightarrow> 'al \<Rightarrow> 'x testcase list \<Rightarrow> 'al Table" where
  "printResults results ALIGN_LEFT junitResults =
     (let table = CreateTable;
          table = SetColumnAlign table 1 ALIGN_LEFT;
          table = SetColumnAlign table 2 ALIGN_LEFT;
          table = AddRow table [''STATUS'', ''TEST''];
          table = printResults_range results table junitResults
      in Render table)"

subsection \<open>Errors, channels and pipes\<close>

text \<open>
  A non-nil Go \<^verbatim>\<open>error\<close>: the sentinel \<^verbatim>\<open>io.EOF\<close>, an error made by
  \<^verbatim>\<open>errors.New(message)\<close> (the errors of the libraries are of this kind), or
  \<^verbatim>\<open>errors.Wrap(err, message)\<close>. A Go value of type \<^verbatim>\<open>error\<close> is an
  \<open>error option\<close>, with \<open>None\<close> for \<^verbatim>\<open>nil\<close>.
\<close>

datatype error = io_EOF | errors_New string | errors_Wrap error string

text \<open>
  \<open>wraps err e\<close>: the error \<open>err\<close> is \<open>e\<close>, or wraps it, directly or inside
  further wraps.
\<close>

fun wraps :: "error \<Rightarrow> error \<Rightarrow> bool" where
  "wraps (errors_Wrap err message) e = (errors_Wrap err message = e \<or> wraps err e)"
| "wraps err e = (err = e)"

text \<open>
  A call either returns a value, or blocks forever, or panics. A panic that no
  function recovers from ends the process.
\<close>

datatype 'a outcome = Returns 'a | Blocks | Panics

text \<open>
  A buffered channel of errors: its capacity, the values sent and not yet received, and
  whether it has been closed. A send appends to the buffer (the sends of this file never
  find the buffer full, see \<open>untarResults_capacity\<close>). A variable of channel type holds \<open>None\<close> for the \<^verbatim>\<open>nil\<close> channel.
  \<open>recv\<close> is the receive \<^verbatim>\<open><-ch\<close> once every sender of the channel has finished: a
  buffered value is delivered; on a closed and empty channel the zero value \<^verbatim>\<open>nil\<close>
  is delivered; on an open and empty channel, and on the \<^verbatim>\<open>nil\<close> channel, the
  receive never returns.
\<close>

record chan =
  cap :: nat
  buf :: "error option list"
  is_closed :: bool

definition make_chan :: "nat \<Rightarrow> chan" where
  "make_chan n = \<lparr>cap = n, buf = [], is_closed = False\<rparr>"

definition send :: "chan \<Rightarrow> error option \<Rightarrow> chan" where
  "send ch v = ch\<lparr>buf := buf ch @ [v]\<rparr>"

definition close_chan :: "chan \<Rightarrow> chan" where
  "close_chan ch = ch\<lparr>is_closed := True\<rparr>"

definition recv :: "chan option \<Rightarrow> error option outcome" where
  "recv ch =
     (case ch of
        None \<Rightarrow> Blocks
      | Some c \<Rightarrow>
          (case buf c of
             v # _ \<Rightarrow> Returns v
           | [] \<Rightarrow> if is_closed c then Returns None else Blocks))"

text \<open>
  The pipe of \<^verbatim>\<open>io.Pipe()\<close>: the bytes written to it, which are the bytes its read
  end delivers, and whether the write end has been closed (the read end then delivers
  end of file after these bytes).
\<close>

type_synonym byte = "8 word"

record pipe =
  written :: "byte list"
  write_closed :: bool

definition io_Pipe :: pipe where
  "io_Pipe = \<lparr>written = [], write_closed = False\<rparr>"

definition pipe_Write :: "pipe \<Rightarrow> byte list \<Rightarrow> pipe" where
  "pipe_Write p bs = p\<lparr>written := written p @ bs\<rparr>"

definition pipe_Close :: "pipe \<Rightarrow> pipe" where
  "pipe_Close p = p\<lparr>write_closed := True\<rparr>"

subsection \<open>The tar stream\<close>

text \<open>
  What \<^verbatim>\<open>tar.NewReader(src)\<close> makes of the bytes of \<open>src\<close>: the entries that
  successive calls of \<^verbatim>\<open>Next()\<close> return, and the error that \<^verbatim>\<open>Next()\<close> returns
  after the last of them (\<^verbatim>\<open>io.EOF\<close> at the end of a well-formed archive). An
  entry has the name of its header and its content; reading the content either
  delivers all of it, or fails with an error after some of its bytes (a truncated or
  damaged archive).
\<close>

record tar_entry =
  hdr_Name :: string
  content :: "byte list"
  read_fails :: "(nat \<times> error) option"

record tar_stream =
  entries :: "tar_entry list"
  ending :: error

text \<open>
  The tar stream of an archive into which the given files (name and content) have been
  packed, in this order: every content can be read to its end, and \<^verbatim>\<open>Next()\<close>
  returns \<^verbatim>\<open>io.EOF\<close> after the last entry.
\<close>

definition tar_pack :: "(string \<times> byte list) list \<Rightarrow> tar_stream" where
  "tar_pack files =
     \<lparr>entries = map (\<lambda>(name, bytes). \<lparr>hdr_Name = name, content = bytes, read_fails = None\<rparr>) files,
      ending = io_EOF\<rparr>"

text \<open>
  \<^verbatim>\<open>strings.HasSuffix(s, suffix)\<close>.
\<close>

definition HasSuffix :: "string \<Rightarrow> string \<Rightarrow> bool" where
  "HasSuffix s suffix =
     (length suffix \<le> length s \<and> drop (length s - length suffix) s = suffix)"

text \<open>
  \<^verbatim>\<open>io.Copy(writer, tarReader)\<close> on the current entry, with a reader of the pipe that
  takes every byte offered: the bytes of the entry that can be read are written to the
  pipe, and the result is the read error, if there is one.
\<close>

definition io_Copy :: "pipe \<Rightarrow> tar_entry \<Rightarrow> pipe \<times> error option" where
  "io_Copy writer entry =
     (case read_fails entry of
        None \<Rightarrow> (pipe_Write writer (content entry), None)
      | Some (n, err) \<Rightarrow> (pipe_Write writer (take n (content entry)), Some err))"

subsection \<open>untarResults\<close>

text \<open>
  \<^verbatim>\<open>
  func untarResults(src io.Reader) (io.Reader, <-chan error) {
      ec := make(chan error, 1)
      tarReader := tar.NewReader(src)
      for {
          header, err := tarReader.Next()
          if err != nil {
              if err != io.EOF {
                  ec <- err
                  return nil, ec
              } else {
                  ec <- errors.New("no compliance results archive found")
                  return nil, ec
              }
          }
          if strings.HasSuffix(header.Name, ".tar.gz") {
              reader, writer := io.Pipe()
              go func(writer *io.PipeWriter, ec chan error) {
                  defer writer.Close()
                  defer close(ec)
                  _, err := io.Copy(writer, tarReader)
                  if err != nil {
                      ec <- err
                  }
              }(writer, ec)
              return reader, nil
          }
      }
      return nil, ec
  }
  \<close>
  The function literal started with \<^verbatim>\<open>go\<close> is \<open>copy_task\<close>: it is run to its end,
  and gives the pipe and the channel \<open>ec\<close> as it leaves them. The deferred calls run
  last, in reverse order. The \<^verbatim>\<open>return nil, ec\<close> after the loop is never reached.
\<close>

definition copy_task :: "pipe \<Rightarrow> chan \<Rightarrow> tar_entry \<Rightarrow> pipe \<times> chan" where
  "copy_task writer ec tarReader =
     (let (writer, err) = io_Copy writer tarReader;
          ec = (if err \<noteq> None then send ec err else ec);
          ec = close_chan ec;
          writer = pipe_Close writer
      in (writer, ec))"

text \<open>
  What a call of \<open>untarResults\<close> leaves behind: its two results (\<open>None\<close> for
  \<^verbatim>\<open>nil\<close>; the reader is the read end of the pipe), the channel \<open>ec\<close> as the
  background task leaves it (\<open>None\<close> when no task has been started), and the entries
  that \<open>tarReader\<close> has not visited.
\<close>

record untar_result =
  ret_reader :: "pipe option"
  ret_errch :: "chan option"
  task_ec :: "chan option"
  unvisited :: "tar_entry list"

fun untarResults_loop :: "chan \<Rightarrow> tar_entry list \<Rightarrow> error \<Rightarrow> untar_result" where
  "untarResults_loop ec [] err =
     (if err \<noteq> io_EOF
      then \<lparr>ret_reader = None, ret_errch = Some (send ec (Some err)),
            task_ec = None, unvisited = []\<rparr>
      else \<lparr>ret_reader = None,
            ret_errch = Some (send ec (Some (errors_New ''no compliance results archive found''))),
            task_ec = None, unvisited = []\<rparr>)"
| "untarResults_loop ec (header # rest) err =
     (if HasSuffix (hdr_Name header) ''.tar.gz''
      then (let (reader, ec') = copy_task io_Pipe ec header
            in \<lparr>ret_reader = Some reader, ret_errch = None,
                task_ec = Some ec', unvisited = rest\<rparr>)
      else untarResults_loop ec rest err)"

definition untarResults :: "tar_stream \<Rightarrow> untar_result" where
  "untarResults src =
     (let ec = make_chan 1
      in untarResults_loop ec (entries src) (ending src))"

subsection \<open>Run\<close>

text \<open>
  What \<open>Run\<close> calls and does not define. \<open>CreateComplianceClient\<close>, \<open>GetStatus\<close>
  (the field \<^verbatim>\<open>Status\<close> of the status it returns), \<open>RetrieveResults\<close> (the tar
  stream of the reader it returns, and its error channel as the retrieval leaves it),
  \<open>gzip_NewReader\<close> (given the reader, \<open>None\<close> for \<^verbatim>\<open>nil\<close>; it returns a
  decompressor or an error, or it panics) and \<open>GetTests\<close> (the slice it returns, with
  the store that holds it) are the calls; \<open>preds\<close> are the predicates of sonobuoy's
  package \<^verbatim>\<open>results\<close>; \<open>complianceNamespace\<close>, \<open>CompleteStatus\<close> and \<open>ALIGN_LEFT\<close>
  are constants defined elsewhere; and \<open>first_done_A\<close> says which of the two tasks of
  the group finishes first.
\<close>

record ('cc, 'gz, 'x, 'al) externals =
  CreateComplianceClient :: "error + 'cc"
  GetStatus :: "'cc \<Rightarrow> string \<Rightarrow> error + string"
  RetrieveResults :: "'cc \<Rightarrow> string \<Rightarrow> tar_stream \<times> chan option"
  gzip_NewReader :: "pipe option \<Rightarrow> (error + 'gz) outcome"
  GetTests :: "'cc \<Rightarrow> 'gz \<Rightarrow> string \<Rightarrow> error + ('x testcase store \<times> slice)"
  preds :: "'x testcase results_pkg"
  complianceNamespace :: string
  CompleteStatus :: string
  ALIGN_LEFT :: 'al
  first_done_A :: bool

text \<open>
  What an execution does, in order: the message logged, the calls made, the table
  rendered.
\<close>

datatype 'al event =
    log_Info string
  | call_RetrieveResults string
  | call_untarResults
  | call_gzip_NewReader
  | call_GetTests string
  | call_filterTests
  | call_sort_Sort
  | call_printResults "'al Table"

text \<open>
  \<^verbatim>\<open>sort.Sort(StatusSortedTestCases(testResults))\<close> sorts the backing array of the
  slice in place; on the \<open>nil\<close> slice, whose length is 0, it does nothing.
\<close>

definition sort_in_place :: "'tc results_pkg \<Rightarrow> 'tc store \<Rightarrow> slice \<Rightarrow> 'tc store option" where
  "sort_in_place results h s =
     (case s of
        nil \<Rightarrow> Some h
      | Slice a \<Rightarrow>
          (case sort_Sort Len (Less results) Swap (h ! a) of
             None \<Rightarrow> None
           | Some data \<Rightarrow> Some (h[a := data])))"

text \<open>
  The second task of the group:
  \<^verbatim>\<open>
  eg.Go(func() error {
      resultsReader, errch := untarResults(reader)
      gzr, err := gzip.NewReader(resultsReader)
      if err != nil {
          return errors.Wrap(err, "could not create a gzip reader for compliance results ")
      }
      testResults, err := cc.GetTests(gzr, "all")
      if err != nil {
          return errors.Wrap(err, "could not get the results of the compliance tests from the archive")
      }
      testResults = filterTests(
          func(tc reporters.JUnitTestCase) bool {
              return !results.Skipped(tc)
          }, testResults)
      sort.Sort(StatusSortedTestCases(testResults))
      o.printResults(testResults)
      err = <-errch
      if err != nil {
          return errors.Wrap(err, "could not extract the compliance results from archive")
      }
      return nil
  })
  \<close>
\<close>

definition task_B ::
  "('cc, 'gz, 'x, 'al) externals \<Rightarrow> 'cc \<Rightarrow> tar_stream
     \<Rightarrow> error option outcome \<times> 'al event list" where
  "task_B X cc reader =
     (let u = untarResults reader;
          resultsReader = ret_reader u;
          errch = ret_errch u
      in case gzip_NewReader X resultsReader of
           Panics \<Rightarrow> (Panics, [call_untarResults, call_gzip_NewReader])
         | Blocks \<Rightarrow> (Blocks, [call_untarResults, call_gzip_NewReader])
         | Returns (Inl err) \<Rightarrow>
             (Returns (Some (errors_Wrap err
                 ''could not create a gzip reader for compliance results '')),
              [call_untarResults, call_gzip_NewReader])
         | Returns (Inr gzr) \<Rightarrow>
             (case GetTests X cc gzr ''all'' of
                Inl err \<Rightarrow>
                  (Returns (Some (errors_Wrap err
                      ''could not get the results of the compliance tests from the archive'')),
                   [call_untarResults, call_gzip_NewReader, call_GetTests ''all''])
              | Inr (h, testResults) \<Rightarrow>
                  (let (h, testResults) =
                         filterTests (\<lambda>tc. \<not> Skipped (preds X) tc) h testResults
                   in case sort_in_place (preds X) h testResults of
                        None \<Rightarrow>
                          (Panics, [call_untarResults, call_gzip_NewReader, call_GetTests ''all'',
                                    call_filterTests, call_sort_Sort])
                      | Some h \<Rightarrow>
                          (let table = printResults (preds X) (ALIGN_LEFT X) (elems h testResults);
                               done = [call_untarResults, call_gzip_NewReader,
                                       call_GetTests ''all'', call_filterTests, call_sort_Sort,
                                       call_printResults table]
                           in case recv errch of
                                Blocks \<Rightarrow> (Blocks, done)
                              | Panics \<Rightarrow> (Panics, done)
                              | Returns None \<Rightarrow> (Returns None, done)
                              | Returns (Some err) \<Rightarrow>
                                  (Returns (Some (errors_Wrap err
                                      ''could not extract the compliance results from archive'')),
                                   done)))))"

text \<open>
  \<^verbatim>\<open>eg.Wait()\<close> of \<^verbatim>\<open>errgroup\<close> for the two tasks started with \<^verbatim>\<open>eg.Go\<close>: it
  returns when both have returned, with the first error that a task returned, in the
  order in which they finished; it never returns when one of them never does. A panic
  in a task ends the process, whatever the other task does.
\<close>

definition eg_Wait ::
  "bool \<Rightarrow> error option outcome \<Rightarrow> error option outcome \<Rightarrow> error option outcome" where
  "eg_Wait a_first a b =
     (case (a, b) of
        (Returns ea, Returns eb) \<Rightarrow>
          Returns (if a_first then (case ea of Some e \<Rightarrow> Some e | None \<Rightarrow> eb)
                   else (case eb of Some e \<Rightarrow> Some e | None \<Rightarrow> ea))
      | (Panics, _) \<Rightarrow> Panics
      | (_, Panics) \<Rightarrow> Panics
      | _ \<Rightarrow> Blocks)"

text \<open>
  \<^verbatim>\<open>
  func (o *ComplianceResultsOptions) Run() error {
      cc, err := o.Factory.CreateComplianceClient()
      if err != nil {
          return errors.Wrap(err, "could not create the compliance client")
      }
      status, err := cc.GetStatus(complianceNamespace)
      if err != nil {
          return errors.Wrap(err, "failed to retrieve the compliance status")
      }
      if status.Status != aggregation.CompleteStatus {
          log.Info("Compliance results not ready. Run `jx compliance status` for status.")
          return nil
      }
      cfg := &client.RetrieveConfig{ Namespace: complianceNamespace }
      reader, errch := cc.RetrieveResults(cfg)
      eg := &errgroup.Group{}
      eg.Go(func() error { return <-errch })
      eg.Go(func() error { ... })
      err = eg.Wait()
      if err != nil {
          return errors.Wrap(err, "failed to retrieve the results")
      }
      return nil
  }
  \<close>
  The second function given to \<^verbatim>\<open>eg.Go\<close> is \<open>task_B\<close> above. The result is what
  \<open>Run\<close> returns, if it returns, and what the execution did.
\<close>

definition Run ::
  "('cc, 'gz, 'x, 'al) externals \<Rightarrow> error option outcome \<times> 'al event list" where
  "Run X =
     (case CreateComplianceClient X of
        Inl err \<Rightarrow>
          (Returns (Some (errors_Wrap err ''could not create the compliance client'')), [])
      | Inr cc \<Rightarrow>
          (case GetStatus X cc (complianceNamespace X) of
             Inl err \<Rightarrow>
               (Returns (Some (errors_Wrap err ''failed to retrieve the compliance status'')), [])
           | Inr status_Status \<Rightarrow>
               if status_Status \<noteq> CompleteStatus X
               then (Returns None,
                     [log_Info ''Compliance results not ready. Run `jx compliance status` for status.''])
               else (let (reader, errch) = RetrieveResults X cc (complianceNamespace X);
                         a = recv errch;
                         (b, did) = task_B X cc reader
                     in (case eg_Wait (first_done_A X) a b of
                           Blocks \<Rightarrow> Blocks
                         | Panics \<Rightarrow> Panics
                         | Returns None \<Rightarrow> Returns None
                         | Returns (Some err) \<Rightarrow>
                             Returns (Some (errors_Wrap err ''failed to retrieve the results'')),
                         call_RetrieveResults (complianceNamespace X) # did))))"

subsection \<open>Example inputs\<close>

text \<open>
  Inputs for the worked examples. A test case of ginkgo carries, besides its name, a
  failure message and a skip message, each of which may be absent; the predicates of
  sonobuoy read these two.
\<close>

record ginkgo_case = JUnitTestCase +
  FailureMessage :: "string option"
  SkippedMessage :: "string option"

definition sonobuoy :: "ginkgo_case results_pkg" where
  "sonobuoy =
     \<lparr>Skipped = (\<lambda>t. SkippedMessage t \<noteq> None),
      Failed = (\<lambda>t. FailureMessage t \<noteq> None),
      Passed = (\<lambda>t. SkippedMessage t = None \<and> FailureMessage t = None)\<rparr>"

definition no_verdict :: "ginkgo_case results_pkg" where
  "no_verdict = \<lparr>Skipped = (\<lambda>t. False), Failed = (\<lambda>t. False), Passed = (\<lambda>t. False)\<rparr>"

definition case_failed :: ginkgo_case where
  "case_failed = \<lparr>Name = ''should-fail'', FailureMessage = Some ''boom'', SkippedMessage = None\<rparr>"

definition case_passed :: ginkgo_case where
  "case_passed = \<lparr>Name = ''should-pass'', FailureMessage = None, SkippedMessage = None\<rparr>"

definition case_skipped :: ginkgo_case where
  "case_skipped = \<lparr>Name = ''should-skip'', FailureMessage = None, SkippedMessage = Some ''skipped''\<rparr>"

text \<open>
  Entries of an archive: a log file; the nested archive, whose content is the gzip
  stream of no data, an archive without entries (the ten bytes of the gzip header, the
  compressed data \<open>03 00\<close>, and eight bytes of check sum and length); the nested archive with a
  read error after fourteen of its twenty bytes; and a file with the name of the
  nested archive that holds the text "hello, world" instead.
\<close>

definition entry_log :: tar_entry where
  "entry_log = \<lparr>hdr_Name = ''meta/run.log'', content = [0x6f, 0x6b], read_fails = None\<rparr>"

definition entry_results :: tar_entry where
  "entry_results =
     \<lparr>hdr_Name = ''results.tar.gz'',
      content = [0x1f, 0x8b, 0x08, 0x00, 0x00, 0x00, 0x00, 0x00, 0x00, 0x03,
                 0x03, 0x00, 0x00, 0x00, 0x00, 0x00, 0x00, 0x00, 0x00, 0x00],
      read_fails = None\<rparr>"

definition entry_truncated :: tar_entry where
  "entry_truncated =
     \<lparr>hdr_Name = ''results.tar.gz'',
      content = [0x1f, 0x8b, 0x08, 0x00, 0x00, 0x00, 0x00, 0x00, 0x00, 0x03,
                 0x03, 0x00, 0x00, 0x00, 0x00, 0x00, 0x00, 0x00, 0x00, 0x00],
      read_fails = Some (14, errors_New ''unexpected EOF'')\<rparr>"

definition entry_not_gzip :: tar_entry where
  "entry_not_gzip =
     \<lparr>hdr_Name = ''results.tar.gz'',
      content = [0x68, 0x65, 0x6c, 0x6c, 0x6f, 0x2c, 0x20, 0x77, 0x6f, 0x72, 0x6c, 0x64],
      read_fails = None\<rparr>"

text \<open>
  \<^verbatim>\<open>gzip.NewReader\<close> of \<^verbatim>\<open>compress/gzip\<close>, for the examples. It reads the ten
  bytes of the header from its reader: on the \<^verbatim>\<open>nil\<close> reader this read dereferences
  a nil pointer and panics; a reader that ends before the tenth byte gives
  \<^verbatim>\<open>io.EOF\<close> when it is empty and "unexpected EOF" otherwise; a header that does
  not start with \<open>1f 8b 08\<close> gives "gzip: invalid header". Otherwise the result is the
  decompressor, given here by the bytes that it will read after the header. (The
  optional header fields that a flag byte other than zero announces are not modelled;
  no example has them.)
\<close>

definition example_gzip_NewReader :: "pipe option \<Rightarrow> (error + byte list) outcome" where
  "example_gzip_NewReader r =
     (case r of
        None \<Rightarrow> Panics
      | Some p \<Rightarrow>
          if written p = [] then Returns (Inl io_EOF)
          else if length (written p) < 10 then Returns (Inl (errors_New ''unexpected EOF''))
          else if take 3 (written p) \<noteq> [0x1f, 0x8b, 0x08]
          then Returns (Inl (errors_New ''gzip: invalid header''))
          else Returns (Inr (drop 10 (written p))))"

text \<open>
  The parser of the examples. From the complete compressed stream of the empty archive
  it gets no test case, and returns an empty slice; a stream that ends early makes it
  fail.
\<close>

definition example_GetTests ::
  "unit \<Rightarrow> byte list \<Rightarrow> string \<Rightarrow> error + (ginkgo_case store \<times> slice)" where
  "example_GetTests cc gzr kind =
     (if gzr = [0x03, 0x00, 0x00, 0x00, 0x00, 0x00, 0x00, 0x00, 0x00, 0x00]
      then Inr ([[]], Slice 0)
      else Inl (errors_Wrap (errors_New ''unexpected EOF'') ''failed to walk results archive''))"

text \<open>
  An environment of \<open>Run\<close>: the run is complete; the retrieval delivers an archive with
  the log file and the nested archive, and closes its error channel without an error.
\<close>

definition example_env :: "(unit, byte list, unit ginkgo_case_ext, nat) externals" where
  "example_env =
     \<lparr>CreateComplianceClient = Inr (),
      GetStatus = (\<lambda>cc namespace. Inr ''complete''),
      RetrieveResults = (\<lambda>cc namespace.
        (\<lparr>entries = [entry_log, entry_results], ending = io_EOF\<rparr>,
         Some \<lparr>cap = 1, buf = [], is_closed = True\<rparr>)),
      gzip_NewReader = example_gzip_NewReader,
      GetTests = example_GetTests,
      preds = sonobuoy,
      complianceNamespace = ''jx-compliance'',
      CompleteStatus = ''complete'',
      ALIGN_LEFT = 0,
      first_done_A = True\<rparr>"

section \<open>Properties\<close>

subsection \<open>status and the priority table\<close>

lemma dom_statuses: "dom statuses = {''FAILED'', ''PASSED'', ''SKIPPED'', ''UNKNOWN''}"
  by (auto simp: statuses_def split: if_splits)

lemma status_cases:
  "status results tc = ''SKIPPED'' \<or> status results tc = ''FAILED'' \<or>
   status results tc = ''PASSED'' \<or> status results tc = ''UNKNOWN''"
  by (simp add: status_def)

text \<open>
  Claim C10. \<open>status\<close> is total and returns one of the four labels SKIPPED, FAILED,
  PASSED, UNKNOWN; Skipped takes precedence over Failed, and Failed over Passed; every
  label it returns is a key of \<open>statuses\<close>, so the lookups of \<open>Less\<close> never fall back
  to the zero value of a missing key, for any two records of a slice.
\<close>

theorem status_total_and_keyed:
  fixes results :: "'tc results_pkg" and tc :: 'tc and s :: "'tc list"
  shows "status results tc \<in> {''SKIPPED'', ''FAILED'', ''PASSED'', ''UNKNOWN''}
    \<and> (Skipped results tc \<longrightarrow> status results tc = ''SKIPPED'')
    \<and> (\<not> Skipped results tc \<and> Failed results tc \<longrightarrow> status results tc = ''FAILED'')
    \<and> (\<not> Skipped results tc \<and> \<not> Failed results tc \<and> Passed results tc
          \<longrightarrow> status results tc = ''PASSED'')
    \<and> (\<not> Skipped results tc \<and> \<not> Failed results tc \<and> \<not> Passed results tc
          \<longrightarrow> status results tc = ''UNKNOWN'')
    \<and> status results tc \<in> dom statuses
    \<and> statuses (status results tc) = Some (statuses_index (status results tc))
    \<and> (\<forall>i j. i < Len s \<and> j < Len s \<longrightarrow>
          statuses (status results (s ! i)) \<noteq> None \<and> statuses (status results (s ! j)) \<noteq> None
          \<and> Less results s i j =
              Some (the (statuses (status results (s ! i))) < the (statuses (status results (s ! j)))))"
proof -
  have key: "status results t \<in> dom statuses" for t
    using status_cases [of results t] by (auto simp: dom_statuses)
  have idx: "statuses (status results t) = Some (statuses_index (status results t))" for t
    using key [of t] by (auto simp: statuses_index_def)
  have labels: "status results tc \<in> {''SKIPPED'', ''FAILED'', ''PASSED'', ''UNKNOWN''}"
    using status_cases [of results tc] by auto
  have prec: "(Skipped results tc \<longrightarrow> status results tc = ''SKIPPED'')
    \<and> (\<not> Skipped results tc \<and> Failed results tc \<longrightarrow> status results tc = ''FAILED'')
    \<and> (\<not> Skipped results tc \<and> \<not> Failed results tc \<and> Passed results tc
          \<longrightarrow> status results tc = ''PASSED'')
    \<and> (\<not> Skipped results tc \<and> \<not> Failed results tc \<and> \<not> Passed results tc
          \<longrightarrow> status results tc = ''UNKNOWN'')"
    by (simp add: status_def)
  have less: "\<forall>i j. i < Len s \<and> j < Len s \<longrightarrow>
          statuses (status results (s ! i)) \<noteq> None \<and> statuses (status results (s ! j)) \<noteq> None
          \<and> Less results s i j =
              Some (the (statuses (status results (s ! i))) < the (statuses (status results (s ! j))))"
    by (simp add: idx Less_def Len_def)
  from labels prec key [of tc] idx [of tc] less show ?thesis by blast
qed

theorem status_total_and_keyed_witness:
  "Skipped sonobuoy case_skipped \<and> status sonobuoy case_skipped = ''SKIPPED''
   \<and> \<not> Skipped sonobuoy case_failed \<and> Failed sonobuoy case_failed
   \<and> status sonobuoy case_failed = ''FAILED''
   \<and> \<not> Skipped sonobuoy case_passed \<and> \<not> Failed sonobuoy case_passed
   \<and> Passed sonobuoy case_passed \<and> status sonobuoy case_passed = ''PASSED''
   \<and> \<not> Skipped no_verdict case_passed \<and> \<not> Failed no_verdict case_passed
   \<and> \<not> Passed no_verdict case_passed \<and> status no_verdict case_passed = ''UNKNOWN''
   \<and> (0::nat) < Len [case_skipped, case_failed] \<and> (1::nat) < Len [case_skipped, case_failed]
   \<and> statuses (status sonobuoy ([case_skipped, case_failed] ! 0)) = Some 2
   \<and> statuses (status sonobuoy ([case_skipped, case_failed] ! 1)) = Some 0
   \<and> Less sonobuoy [case_skipped, case_failed] 1 0 = Some True"
  using status_total_and_keyed [of sonobuoy case_skipped "[case_skipped, case_failed]"]
    status_total_and_keyed [of sonobuoy case_failed "[case_skipped, case_failed]"]
    status_total_and_keyed [of sonobuoy case_passed "[case_skipped, case_failed]"]
    status_total_and_keyed [of no_verdict case_passed "[case_skipped, case_failed]"]
  by (simp add: sonobuoy_def no_verdict_def case_skipped_def case_failed_def case_passed_def
      status_def statuses_def statuses_index_def Len_def Less_def)

subsection \<open>Sorting by status\<close>

lemma statuses_index_simps:
  "statuses_index ''FAILED'' = 0" "statuses_index ''PASSED'' = 1"
  "statuses_index ''SKIPPED'' = 2" "statuses_index ''UNKNOWN'' = 3"
  by (simp_all add: statuses_index_def statuses_def)

lemma Swap_mset: "Swap s i j = Some s' \<Longrightarrow> mset s' = mset s"
  by (auto simp: Swap_def mset_swap split: if_splits)

lemma apply_swaps_mset: "apply_swaps s calls = Some s' \<Longrightarrow> mset s' = mset s"
proof (induction calls arbitrary: s)
  case Nil
  then show ?case by simp
next
  case (Cons c calls)
  obtain i j where c: "c = (i, j)" by (cases c)
  from Cons.prems c obtain t where t: "Swap s i j = Some t" and r: "apply_swaps t calls = Some s'"
    by (auto split: option.splits)
  from Cons.IH [OF r] Swap_mset [OF t] show ?case by simp
qed

lemma sorted_by_Less_order:
  assumes "sorted_by_Less results s" and "i < length s" and "j < length s"
    and "statuses_index (status results (s ! i)) < statuses_index (status results (s ! j))"
  shows "i < j"
proof (rule ccontr)
  assume "\<not> i < j"
  then consider "i = j" | "j < i" by linarith
  then show False
  proof cases
    case 1
    with assms(4) show False by simp
  next
    case 2
    with assms(1,2) have "Less results s i j = Some False"
      by (simp add: sorted_by_Less_def Len_def)
    with assms(2,3,4) show False by (simp add: Less_def)
  qed
qed

lemma sorted_three:
  assumes perm: "mset s = mset [a, b, c]"
    and srt: "sorted_by_Less results s"
    and st: "status results a = ''SKIPPED''" "status results b = ''FAILED''"
            "status results c = ''PASSED''"
  shows "s = [b, c, a]"
proof -
  have "length s = 3" using mset_eq_length [OF perm] by simp
  then obtain x y z where s: "s = [x, y, z]"
    by (auto simp: numeral_3_eq_3 length_Suc_conv)
  have abc: "distinct [a, b, c]" using st by auto
  have dist: "distinct [x, y, z]"
    using mset_eq_imp_distinct_iff [OF perm] abc s by simp
  have set: "{x, y, z} = {a, b, c}" using mset_eq_setD [OF perm] s by simp
  have p: "statuses_index (status results a) = 2" "statuses_index (status results b) = 0"
    "statuses_index (status results c) = 1"
    using st by (simp_all add: statuses_index_simps)
  have o1: "\<not> statuses_index (status results y) < statuses_index (status results x)"
    using sorted_by_Less_order [OF srt, of 1 0] s by auto
  have o2: "\<not> statuses_index (status results z) < statuses_index (status results y)"
    using sorted_by_Less_order [OF srt, of 2 1] s by auto
  have o3: "\<not> statuses_index (status results z) < statuses_index (status results x)"
    using sorted_by_Less_order [OF srt, of 2 0] s by auto
  have x: "x \<in> {a, b, c}" and y: "y \<in> {a, b, c}" and z: "z \<in> {a, b, c}"
    using set by auto
  from x y z dist o1 o2 o3 p have "x = b \<and> y = c \<and> z = a" by auto
  with s show ?thesis by simp
qed

lemma sorted_by_Less_iff:
  "sorted_by_Less results s
     \<longleftrightarrow> sorted (map (\<lambda>t. statuses_index (status results t)) s)"
  by (auto simp: sorted_by_Less_def Len_def Less_def sorted_iff_nth_mono_less not_less)

text \<open>
  The insertion sort, run with \<open>Less\<close> and \<open>Swap\<close> of \<open>StatusSortedTestCases\<close>: the
  inner loop moves the element at \<open>j\<close> down into the sorted part before it, and the
  outer loop extends the sorted part by one element at a time.
\<close>

lemma insertionSort_inner_append:
  assumes "sorted (map (\<lambda>t. statuses_index (status results t)) xs)"
  shows "\<exists>ys. insertionSort_inner (Less results) Swap (xs @ y # zs) 0 (length xs) = Some (ys @ zs)
           \<and> length ys = Suc (length xs)
           \<and> sorted (map (\<lambda>t. statuses_index (status results t)) ys)
           \<and> mset ys = mset (xs @ [y])"
  using assms
proof (induction xs arbitrary: y zs rule: rev_induct)
  case Nil
  have "insertionSort_inner (Less results) Swap ([] @ y # zs) 0 (length ([] :: 'a list)) = Some ([y] @ zs)"
    by (subst insertionSort_inner.simps) simp
  then show ?case by (intro exI [of _ "[y]"]) simp
next
  case (snoc x xs)
  let ?p = "\<lambda>t. statuses_index (status results t)"
  have less: "Less results (xs @ x # y # zs) (Suc (length xs)) (length xs) = Some (?p y < ?p x)"
    by (simp add: Less_def nth_append)
  have sw: "Swap (xs @ x # y # zs) (Suc (length xs)) (length xs) = Some (xs @ y # x # zs)"
    by (simp add: Swap_def nth_append list_update_append)
  have srt: "sorted (map ?p xs)" and le: "\<forall>t\<in>set xs. ?p t \<le> ?p x"
    using snoc.prems by (auto simp: sorted_append)
  show ?case
  proof (cases "?p y < ?p x")
    case True
    from snoc.IH [OF srt, of y "x # zs"] obtain ys
      where r: "insertionSort_inner (Less results) Swap (xs @ y # x # zs) 0 (length xs) = Some (ys @ x # zs)"
        and l: "length ys = Suc (length xs)" and s: "sorted (map ?p ys)"
        and m: "mset ys = mset (xs @ [y])"
      by blast
    have "insertionSort_inner (Less results) Swap ((xs @ [x]) @ y # zs) 0 (length (xs @ [x]))
            = Some ((ys @ [x]) @ zs)"
      by (subst insertionSort_inner.simps) (simp add: less sw True r)
    moreover have "length (ys @ [x]) = Suc (length (xs @ [x]))" using l by simp
    moreover have "sorted (map ?p (ys @ [x]))"
    proof -
      have "set ys = set xs \<union> {y}" using mset_eq_setD [OF m] by simp
      with le True have "\<forall>t\<in>set ys. ?p t \<le> ?p x" by auto
      with s show ?thesis by (simp add: sorted_append)
    qed
    moreover have "mset (ys @ [x]) = mset ((xs @ [x]) @ [y])" using m by simp
    ultimately show ?thesis by blast
  next
    case False
    have "insertionSort_inner (Less results) Swap ((xs @ [x]) @ y # zs) 0 (length (xs @ [x]))
            = Some (((xs @ [x]) @ [y]) @ zs)"
      by (subst insertionSort_inner.simps) (simp add: less False)
    moreover have "sorted (map ?p ((xs @ [x]) @ [y]))"
      using snoc.prems False le by (auto simp: sorted_append)
    ultimately show ?thesis by (intro exI [of _ "(xs @ [x]) @ [y]"]) simp
  qed
qed

lemma insertionSort_outer_sorts:
  assumes "sorted (map (\<lambda>t. statuses_index (status results t)) (take i data))"
    and "0 < i"
  shows "\<exists>data'. insertionSort_outer (Less results) Swap data 0 i (length data) = Some data'
           \<and> sorted (map (\<lambda>t. statuses_index (status results t)) data')
           \<and> mset data' = mset data"
  using assms
proof (induction "length data - i" arbitrary: i data)
  case 0
  then have "\<not> i < length data" by simp
  with "0.prems" show ?case by (subst insertionSort_outer.simps) simp
next
  case (Suc k)
  let ?p = "\<lambda>t. statuses_index (status results t)"
  from Suc.hyps(2) have lt: "i < length data" by simp
  have split: "data = take i data @ data ! i # drop (Suc i) data"
    using lt by (simp add: id_take_nth_drop [symmetric])
  have li: "length (take i data) = i" using lt by simp
  from insertionSort_inner_append [OF Suc.prems(1), of "data ! i" "drop (Suc i) data"]
  obtain ys where r: "insertionSort_inner (Less results) Swap
                        (take i data @ data ! i # drop (Suc i) data) 0 (length (take i data))
                      = Some (ys @ drop (Suc i) data)"
    and l: "length ys = Suc (length (take i data))" and s: "sorted (map ?p ys)"
    and m: "mset ys = mset (take i data @ [data ! i])"
    by blast
  let ?d1 = "ys @ drop (Suc i) data"
  have r': "insertionSort_inner (Less results) Swap data 0 i = Some ?d1"
    using r by (simp only: li split [symmetric])
  have len: "length ?d1 = length data" using l li lt by simp
  have tk: "take (i + 1) ?d1 = ys" using l li by simp
  have ms: "mset ?d1 = mset data"
  proof -
    have "mset ?d1 = mset (take i data @ [data ! i]) + mset (drop (Suc i) data)" using m by simp
    also have "\<dots> = mset (take i data @ data ! i # drop (Suc i) data)" by simp
    also have "\<dots> = mset data" using split by simp
    finally show ?thesis .
  qed
  have k: "k = length ?d1 - (i + 1)" using Suc.hyps(2) len by simp
  have pre: "sorted (map ?p (take (i + 1) ?d1))" by (simp only: tk s)
  have pos: "0 < i + 1" by simp
  from Suc.hyps(1) [OF k pre pos]
  obtain data' where o: "insertionSort_outer (Less results) Swap ?d1 0 (i + 1) (length ?d1) = Some data'"
    and s': "sorted (map ?p data')" and m': "mset data' = mset ?d1"
    by blast
  have "insertionSort_outer (Less results) Swap data 0 i (length data) = Some data'"
    using lt r' o len by (subst insertionSort_outer.simps) simp
  with s' m' ms show ?case by simp
qed

lemma sort_Sort_sorts:
  "\<exists>data'. sort_Sort Len (Less results) Swap data = Some data'
     \<and> sorted (map (\<lambda>t. statuses_index (status results t)) data')
     \<and> mset data' = mset data"
proof -
  have "sorted (map (\<lambda>t. statuses_index (status results t)) (take 1 data))"
    by (cases data) simp_all
  from insertionSort_outer_sorts [OF this]
  show ?thesis by (simp add: sort_Sort_def insertionSort_def Len_def Let_def)
qed

lemma sort_in_place_Slice:
  assumes "sort_Sort Len (Less results) Swap (h ! a) = Some data'"
  shows "sort_in_place results h (Slice a) = Some (h[a := data'])"
  using assms by (simp add: sort_in_place_def)

lemma sort_in_place_returns: "sort_in_place results h s \<noteq> None"
proof (cases s)
  case nil
  then show ?thesis by (simp add: sort_in_place_def)
next
  case (Slice a)
  obtain data' where "sort_Sort Len (Less results) Swap (h ! a) = Some data'"
    using sort_Sort_sorts [of results "h ! a"] by blast
  with Slice show ?thesis by (simp add: sort_in_place_def)
qed

text \<open>
  Claim C3. For every list of test-case records, \<^verbatim>\<open>sort.Sort\<close> on
  \<open>StatusSortedTestCases\<close> returns, and so does the sort step of \<open>Run\<close> on a slice that
  holds the list; the list it leaves is a permutation of the input in which every
  FAILED record stands before every PASSED record, every PASSED record before every
  SKIPPED record, and every SKIPPED record before every UNKNOWN record; the input
  [SKIPPED, FAILED, PASSED] is sorted to [FAILED, PASSED, SKIPPED].
\<close>

theorem sort_by_status:
  fixes results :: "'tc results_pkg" and data :: "'tc list"
  shows "\<exists>data'. sort_Sort Len (Less results) Swap data = Some data'
    \<and> (\<forall>h a. a < length h \<and> h ! a = data
          \<longrightarrow> sort_in_place results h (Slice a) = Some (h[a := data'])
              \<and> elems (h[a := data']) (Slice a) = data')
    \<and> mset data' = mset data
    \<and> (\<forall>i j. i < length data' \<and> j < length data'
          \<and> status results (data' ! i) = ''FAILED''
          \<and> status results (data' ! j) = ''PASSED'' \<longrightarrow> i < j)
    \<and> (\<forall>i j. i < length data' \<and> j < length data'
          \<and> status results (data' ! i) = ''PASSED''
          \<and> status results (data' ! j) = ''SKIPPED'' \<longrightarrow> i < j)
    \<and> (\<forall>i j. i < length data' \<and> j < length data'
          \<and> status results (data' ! i) = ''SKIPPED''
          \<and> status results (data' ! j) = ''UNKNOWN'' \<longrightarrow> i < j)
    \<and> (\<forall>a b c. data = [a, b, c] \<and> status results a = ''SKIPPED''
          \<and> status results b = ''FAILED'' \<and> status results c = ''PASSED''
          \<longrightarrow> data' = [b, c, a])"
proof -
  obtain data' where run: "sort_Sort Len (Less results) Swap data = Some data'"
    and srt: "sorted (map (\<lambda>t. statuses_index (status results t)) data')"
    and perm: "mset data' = mset data"
    using sort_Sort_sorts [of results data] by blast
  have sbl: "sorted_by_Less results data'"
    using srt by (simp add: sorted_by_Less_iff)
  have place: "\<forall>h a. a < length h \<and> h ! a = data
          \<longrightarrow> sort_in_place results h (Slice a) = Some (h[a := data'])
              \<and> elems (h[a := data']) (Slice a) = data'"
    using run by (auto simp: sort_in_place_Slice elems_def)
  have ord: "i < j"
    if "i < length data'" "j < length data'"
      "statuses_index (status results (data' ! i)) < statuses_index (status results (data' ! j))"
    for i j
    using sorted_by_Less_order [OF sbl that] .
  have fp: "\<forall>i j. i < length data' \<and> j < length data'
          \<and> status results (data' ! i) = ''FAILED''
          \<and> status results (data' ! j) = ''PASSED'' \<longrightarrow> i < j"
    using ord by (simp add: statuses_index_simps)
  have ps: "\<forall>i j. i < length data' \<and> j < length data'
          \<and> status results (data' ! i) = ''PASSED''
          \<and> status results (data' ! j) = ''SKIPPED'' \<longrightarrow> i < j"
    using ord by (simp add: statuses_index_simps)
  have su: "\<forall>i j. i < length data' \<and> j < length data'
          \<and> status results (data' ! i) = ''SKIPPED''
          \<and> status results (data' ! j) = ''UNKNOWN'' \<longrightarrow> i < j"
    using ord by (simp add: statuses_index_simps)
  have ex: "\<forall>a b c. data = [a, b, c] \<and> status results a = ''SKIPPED''
          \<and> status results b = ''FAILED'' \<and> status results c = ''PASSED''
          \<longrightarrow> data' = [b, c, a]"
    using perm sbl by (auto intro: sorted_three)
  show ?thesis
    by (rule exI [of _ data'], intro conjI) (rule run place perm fp ps su ex)+
qed

theorem sort_by_status_witness:
  "sort_Sort Len (Less sonobuoy) Swap [case_skipped, case_failed, case_passed]
     = Some [case_failed, case_passed, case_skipped]
   \<and> sort_in_place sonobuoy [[], [case_skipped, case_failed, case_passed]] (Slice 1)
     = Some [[], [case_failed, case_passed, case_skipped]]
   \<and> mset [case_failed, case_passed, case_skipped]
       = mset [case_skipped, case_failed, case_passed]
   \<and> status sonobuoy case_skipped = ''SKIPPED''
   \<and> status sonobuoy case_failed = ''FAILED''
   \<and> status sonobuoy case_passed = ''PASSED''"
proof -
  let ?data = "[case_skipped, case_failed, case_passed]"
  let ?h = "[[], ?data]"
  have st: "status sonobuoy case_skipped = ''SKIPPED''" "status sonobuoy case_failed = ''FAILED''"
    "status sonobuoy case_passed = ''PASSED''"
    by (simp_all add: status_def sonobuoy_def case_skipped_def case_failed_def case_passed_def)
  from sort_by_status [of sonobuoy ?data]
  obtain data' where run: "sort_Sort Len (Less sonobuoy) Swap ?data = Some data'"
    and place: "\<forall>h a. a < length h \<and> h ! a = ?data
          \<longrightarrow> sort_in_place sonobuoy h (Slice a) = Some (h[a := data'])
              \<and> elems (h[a := data']) (Slice a) = data'"
    and perm: "mset data' = mset ?data"
    and ex: "\<forall>a b c. ?data = [a, b, c] \<and> status sonobuoy a = ''SKIPPED''
          \<and> status sonobuoy b = ''FAILED'' \<and> status sonobuoy c = ''PASSED''
          \<longrightarrow> data' = [b, c, a]"
    by (elim exE conjE) (rule that, assumption+)
  from ex st have d: "data' = [case_failed, case_passed, case_skipped]" by simp
  from place have "sort_in_place sonobuoy ?h (Slice 1) = Some (?h[1 := data'])"
    by (elim allE [of _ ?h] allE [of _ 1]) simp
  with run perm d st show ?thesis by simp
qed

text \<open>
  The order does not depend on the algorithm of the library: every list that is
  reached from the input by calls of \<open>Swap\<close> and is sorted with respect to \<open>Less\<close> is
  a permutation of the input, with every record of a lower priority before every
  record of a higher one.
\<close>

lemma any_sorted_result:
  assumes "apply_swaps data calls = Some data'" and "sorted_by_Less results data'"
    and "i < length data'" and "j < length data'"
    and "statuses_index (status results (data' ! i)) < statuses_index (status results (data' ! j))"
  shows "mset data' = mset data \<and> i < j"
  using apply_swaps_mset [OF assms(1)] sorted_by_Less_order [OF assms(2-5)] by simp

subsection \<open>filterTests\<close>

lemma filterTests_range_inv:
  assumes "case testCases of nil \<Rightarrow> True | Slice a \<Rightarrow> a < m"
    and "m \<le> ad" and "ad < length h" and "n \<le> length (elems h testCases)"
  shows "\<exists>h' ad'. filterTests_range predicate testCases i n h (Slice ad) = (h', Slice ad')
           \<and> take m h' = take m h \<and> m \<le> ad' \<and> ad' < length h'
           \<and> h' ! ad' = h ! ad @ filter predicate (drop i (take n (elems h testCases)))"
  using assms
proof (induction "n - i" arbitrary: i h ad)
  case 0
  then have "\<not> i < n" by simp
  with "0.prems" show ?case
    by (subst filterTests_range.simps) simp
next
  case (Suc k)
  then have lt: "i < n" by simp
  let ?xs = "elems h testCases"
  let ?tc = "?xs ! i"
  have "i < length (take n ?xs)" using lt Suc.prems(4) by simp
  from Cons_nth_drop_Suc [OF this] lt
  have dr: "drop i (take n ?xs) = ?tc # drop (i + 1) (take n ?xs)" by simp
  show ?case
  proof (cases "predicate ?tc")
    case True
    let ?h1 = "h @ [h ! ad @ [?tc]]"
    have e1: "elems ?h1 testCases = ?xs"
      using Suc.prems(1,2,3) by (auto simp: elems_def nth_append split: slice.splits)
    have k: "k = n - (i + 1)" using Suc.hyps(2) by simp
    have "\<exists>h' ad'. filterTests_range predicate testCases (i + 1) n ?h1 (Slice (length h)) = (h', Slice ad')
           \<and> take m h' = take m ?h1 \<and> m \<le> ad' \<and> ad' < length h'
           \<and> h' ! ad' = ?h1 ! (length h) @ filter predicate (drop (i + 1) (take n (elems ?h1 testCases)))"
      using Suc.prems by (intro Suc.hyps(1) [OF k]) (auto simp: e1)
    then obtain h' ad' where r: "filterTests_range predicate testCases (i + 1) n ?h1 (Slice (length h)) = (h', Slice ad')"
      and t: "take m h' = take m ?h1" and b: "m \<le> ad'" "ad' < length h'"
      and c: "h' ! ad' = ?h1 ! (length h) @ filter predicate (drop (i + 1) (take n (elems ?h1 testCases)))"
      by blast
    have "filterTests_range predicate testCases i n h (Slice ad) = (h', Slice ad')"
      using lt True r by (subst filterTests_range.simps) (simp add: append_slice_def elems_def)
    moreover have "take m h' = take m h" using t Suc.prems(2,3) by simp
    moreover have "h' ! ad' = h ! ad @ filter predicate (drop i (take n ?xs))"
      using c True by (simp add: e1 dr)
    ultimately show ?thesis using b by blast
  next
    case False
    have k: "k = n - (i + 1)" using Suc.hyps(2) by simp
    have "\<exists>h' ad'. filterTests_range predicate testCases (i + 1) n h (Slice ad) = (h', Slice ad')
           \<and> take m h' = take m h \<and> m \<le> ad' \<and> ad' < length h'
           \<and> h' ! ad' = h ! ad @ filter predicate (drop (i + 1) (take n ?xs))"
      using Suc.prems by (intro Suc.hyps(1) [OF k]) auto
    then obtain h' ad' where r: "filterTests_range predicate testCases (i + 1) n h (Slice ad) = (h', Slice ad')"
      and t: "take m h' = take m h" and b: "m \<le> ad'" "ad' < length h'"
      and c: "h' ! ad' = h ! ad @ filter predicate (drop (i + 1) (take n ?xs))"
      by blast
    have "filterTests_range predicate testCases i n h (Slice ad) = (h', Slice ad')"
      using lt False r by (subst filterTests_range.simps) simp
    moreover have "h' ! ad' = h ! ad @ filter predicate (drop i (take n ?xs))"
      using c False by (simp add: dr)
    ultimately show ?thesis using t b by blast
  qed
qed

text \<open>
  Claim C4. For every predicate and every slice of test-case records (\<open>nil\<close>, or a
  slice of an array of the store), \<open>filterTests\<close> returns a slice that is not \<open>nil\<close>
  and refers to an array allocated by the call; it
  holds exactly the records that satisfy the predicate, in their order in the input;
  no array that existed before the call is changed, so the input still holds what it
  held; and the length of the result is the number of records of the input that
  satisfy the predicate.
\<close>

theorem filterTests_spec:
  assumes "valid_slice h testCases"
  shows "\<exists>h' a. filterTests predicate h testCases = (h', Slice a)
           \<and> length h \<le> a \<and> a < length h'
           \<and> take (length h) h' = h
           \<and> elems h' testCases = elems h testCases
           \<and> elems h' (Slice a) = filter predicate (elems h testCases)
           \<and> length (elems h' (Slice a))
               = card {i. i < length (elems h testCases) \<and> predicate (elems h testCases ! i)}"
proof -
  let ?h0 = "h @ [[]]"
  have v: "case testCases of nil \<Rightarrow> True | Slice a \<Rightarrow> a < length h"
    using assms by (simp add: valid_slice_def)
  have e0: "elems ?h0 testCases = elems h testCases"
    using v by (auto simp: elems_def nth_append split: slice.splits)
  obtain h' a where r: "filterTests_range predicate testCases 0 (length (elems h testCases)) ?h0 (Slice (length h)) = (h', Slice a)"
    and t: "take (length h) h' = take (length h) ?h0" and b: "length h \<le> a" "a < length h'"
    and c: "h' ! a = ?h0 ! (length h) @ filter predicate (drop 0 (take (length (elems h testCases)) (elems ?h0 testCases)))"
    using filterTests_range_inv [OF v, of "length h" ?h0 "length (elems h testCases)" predicate 0]
    by (auto simp: e0)
  have f: "filterTests predicate h testCases = (h', Slice a)"
    using r by (simp add: filterTests_def make_slice_def)
  have t': "take (length h) h' = h" using t by simp
  have same: "elems h' testCases = elems h testCases"
  proof (cases testCases)
    case nil
    then show ?thesis by (simp add: elems_def)
  next
    case (Slice x)
    with v have "x < length h" by simp
    then have "h' ! x = take (length h) h' ! x" by simp
    with t' Slice show ?thesis by (simp add: elems_def)
  qed
  have "elems h' (Slice a) = h' ! a" by (simp add: elems_def)
  with c [unfolded e0] have out: "elems h' (Slice a) = filter predicate (elems h testCases)"
    by simp
  have "length (elems h' (Slice a)) = card {i. i < length (elems h testCases) \<and> predicate (elems h testCases ! i)}"
    by (simp add: out length_filter_conv_card)
  with f b t' same out show ?thesis by blast
qed

theorem filterTests_spec_witness:
  "valid_slice [[case_failed, case_skipped, case_passed]] (Slice 0)
   \<and> filterTests (\<lambda>tc. \<not> Skipped sonobuoy tc) [[case_failed, case_skipped, case_passed]] (Slice 0)
     = ([[case_failed, case_skipped, case_passed], [], [case_failed], [case_failed, case_passed]], Slice 3)
   \<and> elems [[case_failed, case_skipped, case_passed], [], [case_failed], [case_failed, case_passed]] (Slice 3)
     = filter (\<lambda>tc. \<not> Skipped sonobuoy tc) (elems [[case_failed, case_skipped, case_passed]] (Slice 0))"
proof -
  have v: "valid_slice [[case_failed, case_skipped, case_passed]] (Slice 0)"
    by (simp add: valid_slice_def)
  have f: "filterTests (\<lambda>tc. \<not> Skipped sonobuoy tc) [[case_failed, case_skipped, case_passed]] (Slice 0)
     = ([[case_failed, case_skipped, case_passed], [], [case_failed], [case_failed, case_passed]], Slice 3)"
    by (simp add: filterTests_def make_slice_def append_slice_def elems_def filterTests_range.simps
        sonobuoy_def case_failed_def case_skipped_def case_passed_def Let_def numeral_3_eq_3)
  from filterTests_spec [OF v, of "\<lambda>tc. \<not> Skipped sonobuoy tc"] v f show ?thesis
    by auto
qed

subsection \<open>printResults\<close>



subsection \<open>untarResults\<close>

lemma untarResults_loop_no_match:
  assumes "\<forall>e\<in>set es. \<not> HasSuffix (hdr_Name e) ''.tar.gz''"
  shows "untarResults_loop ec es err =
     \<lparr>ret_reader = None,
      ret_errch = Some (send ec (Some (if err = io_EOF
                    then errors_New ''no compliance results archive found'' else err))),
      task_ec = None, unvisited = []\<rparr>"
  using assms by (induction es) simp_all

lemma untarResults_loop_match:
  assumes "\<forall>e\<in>set pre. \<not> HasSuffix (hdr_Name e) ''.tar.gz''"
    and "HasSuffix (hdr_Name entry) ''.tar.gz''"
  shows "untarResults_loop ec (pre @ entry # post) err =
     \<lparr>ret_reader = Some (fst (copy_task io_Pipe ec entry)), ret_errch = None,
      task_ec = Some (snd (copy_task io_Pipe ec entry)), unvisited = post\<rparr>"
  using assms by (induction pre) (simp_all add: case_prod_unfold Let_def)

lemma copy_task_closes:
  "write_closed (fst (copy_task writer ec entry)) \<and> is_closed (snd (copy_task writer ec entry))"
  by (simp add: copy_task_def io_Copy_def pipe_Close_def close_chan_def pipe_Write_def send_def
      split: option.splits prod.splits)

lemma copy_task_written:
  "written (fst (copy_task io_Pipe ec entry))
     = (case read_fails entry of None \<Rightarrow> content entry
        | Some (n, err) \<Rightarrow> take n (content entry))"
  by (simp add: copy_task_def io_Copy_def pipe_Close_def io_Pipe_def pipe_Write_def
      split: option.splits prod.splits)

lemma copy_task_ec:
  "snd (copy_task writer ec entry)
     = (case read_fails entry of None \<Rightarrow> close_chan ec
        | Some (n, err) \<Rightarrow> close_chan (send ec (Some err)))"
  by (simp add: copy_task_def io_Copy_def split: option.splits prod.splits)

text \<open>
  Claim C6. When no entry of the tar stream has a name that ends in \<^verbatim>\<open>.tar.gz\<close>,
  \<open>untarResults\<close> returns the \<open>nil\<close> reader and a channel that holds one error: the
  "not found" error when the stream ends with \<^verbatim>\<open>io.EOF\<close>, and otherwise the read
  error of the stream itself, not wrapped. A receive on the channel delivers that
  error.
\<close>

theorem untarResults_not_found:
  assumes "\<forall>e\<in>set (entries src). \<not> HasSuffix (hdr_Name e) ''.tar.gz''"
  shows "ret_reader (untarResults src) = None
   \<and> (ending src = io_EOF \<longrightarrow>
        ret_errch (untarResults src)
          = Some \<lparr>cap = 1, buf = [Some (errors_New ''no compliance results archive found'')],
                  is_closed = False\<rparr>
        \<and> recv (ret_errch (untarResults src))
          = Returns (Some (errors_New ''no compliance results archive found'')))
   \<and> (ending src \<noteq> io_EOF \<longrightarrow>
        ret_errch (untarResults src)
          = Some \<lparr>cap = 1, buf = [Some (ending src)], is_closed = False\<rparr>
        \<and> recv (ret_errch (untarResults src)) = Returns (Some (ending src)))"
  using assms
  by (simp add: untarResults_def untarResults_loop_no_match make_chan_def send_def recv_def)

lemma untarResults_tar_pack:
  assumes "\<forall>f\<in>set files. \<not> HasSuffix (fst f) ''.tar.gz''" and "HasSuffix name ''.tar.gz''"
  shows "ret_reader (untarResults (tar_pack (files @ (name, bytes) # files')))
           = Some \<lparr>written = bytes, write_closed = True\<rparr>"
proof -
  let ?f = "\<lambda>(name, bytes). \<lparr>hdr_Name = name, content = bytes, read_fails = None\<rparr>"
  let ?entry = "\<lparr>hdr_Name = name, content = bytes, read_fails = None\<rparr>"
  have e: "entries (tar_pack (files @ (name, bytes) # files'))
             = map ?f files @ ?entry # map ?f files'"
    by (simp add: tar_pack_def)
  have pre: "\<forall>e\<in>set (map ?f files). \<not> HasSuffix (hdr_Name e) ''.tar.gz''"
    using assms(1) by (auto simp: case_prod_unfold)
  have m: "HasSuffix (hdr_Name ?entry) ''.tar.gz''" using assms(2) by simp
  have "ret_reader (untarResults (tar_pack (files @ (name, bytes) # files')))
          = Some (fst (copy_task io_Pipe (make_chan 1) ?entry))"
    by (simp only: untarResults_def Let_def e untarResults_loop_match [OF pre m]
        untar_result.select_convs)
  moreover have "fst (copy_task io_Pipe (make_chan 1) ?entry)
                   = \<lparr>written = bytes, write_closed = True\<rparr>"
    using copy_task_written [of "make_chan 1" ?entry] copy_task_closes [of io_Pipe "make_chan 1" ?entry]
    by simp
  ultimately show ?thesis by simp
qed

text \<open>
  Claim C7. When the tar stream has an entry whose name ends in \<^verbatim>\<open>.tar.gz\<close>, the
  reader that \<open>untarResults\<close> returns delivers the bytes of the first such entry that
  can be read, and then the end of file: all of its content when reading it does not
  fail, as for every entry of a packed archive. The entries after it are not visited,
  and do not change what the reader delivers.
\<close>

theorem untarResults_first_match:
  assumes "entries src = pre @ entry # post"
    and "\<forall>e\<in>set pre. \<not> HasSuffix (hdr_Name e) ''.tar.gz''"
    and "HasSuffix (hdr_Name entry) ''.tar.gz''"
  shows "\<exists>reader. ret_reader (untarResults src) = Some reader
     \<and> write_closed reader
     \<and> written reader = (case read_fails entry of None \<Rightarrow> content entry
                          | Some (n, err) \<Rightarrow> take n (content entry))
     \<and> (read_fails entry = None \<longrightarrow> written reader = content entry)
     \<and> unvisited (untarResults src) = post
     \<and> ret_reader (untarResults src)
         = ret_reader (untarResults (src\<lparr>entries := pre @ [entry]\<rparr>))
     \<and> (\<forall>files name bytes files'.
          (\<forall>f\<in>set files. \<not> HasSuffix (fst f) ''.tar.gz'') \<and> HasSuffix name ''.tar.gz''
          \<longrightarrow> ret_reader (untarResults (tar_pack (files @ (name, bytes) # files')))
                = Some \<lparr>written = bytes, write_closed = True\<rparr>)"
proof -
  have u: "untarResults_loop ec (pre @ entry # post) err =
     \<lparr>ret_reader = Some (fst (copy_task io_Pipe ec entry)), ret_errch = None,
      task_ec = Some (snd (copy_task io_Pipe ec entry)), unvisited = post\<rparr>" for ec post err
    using assms(2,3) by (rule untarResults_loop_match)
  let ?reader = "fst (copy_task io_Pipe (make_chan 1) entry)"
  have r: "ret_reader (untarResults src) = Some ?reader"
    and v: "unvisited (untarResults src) = post"
    using assms(1) by (simp_all add: untarResults_def u Let_def)
  have c: "write_closed ?reader" by (simp add: copy_task_closes)
  have w: "written ?reader = (case read_fails entry of None \<Rightarrow> content entry
                          | Some (n, err) \<Rightarrow> take n (content entry))"
    by (rule copy_task_written)
  have w': "read_fails entry = None \<longrightarrow> written ?reader = content entry"
    using w by simp
  have cut: "ret_reader (untarResults src)
         = ret_reader (untarResults (src\<lparr>entries := pre @ [entry]\<rparr>))"
    using r u [of _ "[]"] by (simp add: untarResults_def Let_def)
  have pack: "\<forall>files name bytes files'.
          (\<forall>f\<in>set files. \<not> HasSuffix (fst f) ''.tar.gz'') \<and> HasSuffix name ''.tar.gz''
          \<longrightarrow> ret_reader (untarResults (tar_pack (files @ (name, bytes) # files')))
                = Some \<lparr>written = bytes, write_closed = True\<rparr>"
    by (auto simp: untarResults_tar_pack)
  show ?thesis
    by (rule exI [of _ ?reader], intro conjI) (rule r c w w' v cut pack)+
qed

lemma HasSuffix_examples:
  "\<not> HasSuffix (hdr_Name entry_log) ''.tar.gz''"
  "HasSuffix (hdr_Name entry_results) ''.tar.gz''"
  "HasSuffix (hdr_Name entry_truncated) ''.tar.gz''"
  "HasSuffix (hdr_Name entry_not_gzip) ''.tar.gz''"
  by (simp_all add: HasSuffix_def entry_log_def entry_results_def entry_truncated_def
      entry_not_gzip_def)

theorem untarResults_not_found_witness:
  "\<not> HasSuffix (hdr_Name entry_log) ''.tar.gz''
   \<and> ret_reader (untarResults \<lparr>entries = [entry_log], ending = io_EOF\<rparr>) = None
   \<and> recv (ret_errch (untarResults \<lparr>entries = [entry_log], ending = io_EOF\<rparr>))
       = Returns (Some (errors_New ''no compliance results archive found''))
   \<and> ret_reader (untarResults \<lparr>entries = [entry_log], ending = errors_New ''unexpected EOF''\<rparr>)
       = None
   \<and> recv (ret_errch (untarResults \<lparr>entries = [entry_log], ending = errors_New ''unexpected EOF''\<rparr>))
       = Returns (Some (errors_New ''unexpected EOF''))"
  using untarResults_not_found [of "\<lparr>entries = [entry_log], ending = io_EOF\<rparr>"]
    untarResults_not_found [of "\<lparr>entries = [entry_log], ending = errors_New ''unexpected EOF''\<rparr>"]
  by (simp add: HasSuffix_examples recv_def)

theorem untarResults_first_match_witness:
  "\<not> HasSuffix (hdr_Name entry_log) ''.tar.gz''
   \<and> HasSuffix (hdr_Name entry_results) ''.tar.gz''
   \<and> read_fails entry_results = None
   \<and> ret_reader (untarResults \<lparr>entries = [entry_log, entry_results, entry_not_gzip], ending = io_EOF\<rparr>)
       = Some \<lparr>written = content entry_results, write_closed = True\<rparr>
   \<and> unvisited (untarResults \<lparr>entries = [entry_log, entry_results, entry_not_gzip], ending = io_EOF\<rparr>)
       = [entry_not_gzip]
   \<and> ret_reader (untarResults (tar_pack [(''meta/run.log'', [0x6f, 0x6b]),
         (''results.tar.gz'', [0x1f, 0x8b, 0x08, 0x00]), (''other.tar.gz'', [0x00])]))
       = Some \<lparr>written = [0x1f, 0x8b, 0x08, 0x00], write_closed = True\<rparr>"
proof -
  let ?src = "\<lparr>entries = [entry_log, entry_results, entry_not_gzip], ending = io_EOF\<rparr>"
  have e: "entries ?src = [entry_log] @ entry_results # [entry_not_gzip]" by simp
  have p: "\<forall>e\<in>set [entry_log]. \<not> HasSuffix (hdr_Name e) ''.tar.gz''"
    by (simp add: HasSuffix_examples)
  have n: "read_fails entry_results = None" by (simp add: entry_results_def)
  have s: "\<not> HasSuffix ''meta/run.log'' ''.tar.gz''" "HasSuffix ''results.tar.gz'' ''.tar.gz''"
    by (simp_all add: HasSuffix_def)
  from untarResults_first_match [OF e p HasSuffix_examples(2)]
  obtain reader where r: "ret_reader (untarResults ?src) = Some reader"
    and c: "write_closed reader"
    and w: "read_fails entry_results = None \<longrightarrow> written reader = content entry_results"
    and v: "unvisited (untarResults ?src) = [entry_not_gzip]"
    and k: "\<forall>files name bytes files'.
          (\<forall>f\<in>set files. \<not> HasSuffix (fst f) ''.tar.gz'') \<and> HasSuffix name ''.tar.gz''
          \<longrightarrow> ret_reader (untarResults (tar_pack (files @ (name, bytes) # files')))
                = Some \<lparr>written = bytes, write_closed = True\<rparr>"
    by (elim exE conjE) (rule that, assumption+)
  from w n c have "reader = \<lparr>written = content entry_results, write_closed = True\<rparr>" by simp
  moreover
  from k [rule_format, of "[(''meta/run.log'', [0x6f, 0x6b])]" "''results.tar.gz''"
      "[0x1f, 0x8b, 0x08, 0x00]" "[(''other.tar.gz'', [0x00])]"] s
  have "ret_reader (untarResults (tar_pack ([(''meta/run.log'', [0x6f, 0x6b])] @
         (''results.tar.gz'', [0x1f, 0x8b, 0x08, 0x00]) # [(''other.tar.gz'', [0x00])])))
       = Some \<lparr>written = [0x1f, 0x8b, 0x08, 0x00], write_closed = True\<rparr>"
    by simp
  ultimately show ?thesis using r v n by (simp add: HasSuffix_examples)
qed

subsection \<open>Run\<close>

text \<open>
  Claim C5. When the client has been created and the status fetched differs from the
  complete sentinel, \<open>Run\<close> logs the informational message and returns \<open>nil\<close>; it
  does nothing else, and in particular does not call \<open>RetrieveResults\<close>.
\<close>

theorem Run_not_ready:
  assumes "CreateComplianceClient X = Inr cc"
    and "GetStatus X cc (complianceNamespace X) = Inr status_Status"
    and "status_Status \<noteq> CompleteStatus X"
  shows "Run X = (Returns None,
           [log_Info ''Compliance results not ready. Run `jx compliance status` for status.''])
    \<and> call_RetrieveResults (complianceNamespace X) \<notin> set (snd (Run X))"
  using assms by (simp add: Run_def)

theorem Run_not_ready_witness:
  "CreateComplianceClient (example_env\<lparr>GetStatus := (\<lambda>cc namespace. Inr ''running'')\<rparr>) = Inr ()
   \<and> ''running'' \<noteq> CompleteStatus (example_env\<lparr>GetStatus := (\<lambda>cc namespace. Inr ''running'')\<rparr>)
   \<and> Run (example_env\<lparr>GetStatus := (\<lambda>cc namespace. Inr ''running'')\<rparr>)
       = (Returns None,
          [log_Info ''Compliance results not ready. Run `jx compliance status` for status.''])"
  using Run_not_ready [of "example_env\<lparr>GetStatus := (\<lambda>cc namespace. Inr ''running'')\<rparr>" "()" "''running''"]
  by (simp add: example_env_def)

lemma eg_Wait_simps:
  "eg_Wait a_first (Returns None) (Returns eb) = Returns eb"
  "eg_Wait False (Returns ea) (Returns (Some e)) = Returns (Some e)"
  "eg_Wait True (Returns (Some e)) (Returns eb) = Returns (Some e)"
  "eg_Wait a_first Blocks (Returns eb) = Blocks"
  "eg_Wait a_first (Returns ea) Blocks = Blocks"
  "eg_Wait a_first Blocks Blocks = Blocks"
  "eg_Wait a_first a Panics = Panics"
  "eg_Wait a_first Panics b = Panics"
  by (auto simp: eg_Wait_def split: outcome.splits option.splits)

lemma task_B_gzip_fails:
  assumes "gzip_NewReader X (ret_reader (untarResults reader)) = Returns (Inl err)"
  shows "task_B X cc reader =
     (Returns (Some (errors_Wrap err ''could not create a gzip reader for compliance results '')),
      [call_untarResults, call_gzip_NewReader])"
  using assms by (simp add: task_B_def Let_def)

lemma task_B_parse_fails:
  assumes "gzip_NewReader X (ret_reader (untarResults reader)) = Returns (Inr gzr)"
    and "GetTests X cc gzr ''all'' = Inl err"
  shows "task_B X cc reader =
     (Returns (Some (errors_Wrap err
         ''could not get the results of the compliance tests from the archive'')),
      [call_untarResults, call_gzip_NewReader, call_GetTests ''all''])"
  using assms by (simp add: task_B_def Let_def)

lemma task_B_gzip_panics:
  assumes "gzip_NewReader X (ret_reader (untarResults reader)) = Panics"
  shows "task_B X cc reader = (Panics, [call_untarResults, call_gzip_NewReader])"
  using assms by (simp add: task_B_def Let_def)

lemma Run_complete:
  assumes "CreateComplianceClient X = Inr cc"
    and "GetStatus X cc (complianceNamespace X) = Inr (CompleteStatus X)"
    and "RetrieveResults X cc (complianceNamespace X) = (reader, errch)"
  shows "Run X =
     (case eg_Wait (first_done_A X) (recv errch) (fst (task_B X cc reader)) of
        Blocks \<Rightarrow> Blocks
      | Panics \<Rightarrow> Panics
      | Returns None \<Rightarrow> Returns None
      | Returns (Some err) \<Rightarrow> Returns (Some (errors_Wrap err ''failed to retrieve the results'')),
      call_RetrieveResults (complianceNamespace X) # snd (task_B X cc reader))"
  using assms by (simp add: Run_def Let_def case_prod_unfold)

text \<open>
  Claim C8, as amended. In an execution of \<open>Run\<close> that reaches the decompress step,
  let the construction of the gzip decompressor fail, or let it succeed and the parser
  fail, with the error \<open>cause\<close>. Then nothing is filtered, sorted or rendered, and the
  second task returns \<open>cause\<close> wrapped with the context of the step. \<open>Run\<close> returns
  that error, wrapped once more, when the first task (the receive from the error
  channel of the retrieval) returns \<open>nil\<close>, or returns an error after the second task
  has finished. When the error of the first task comes first, \<open>Run\<close> returns that
  error, wrapped, instead; and when the first task never returns, neither does \<open>Run\<close>.
\<close>

theorem Run_decompress_or_parse_fails:
  assumes cc: "CreateComplianceClient X = Inr cc"
    and st: "GetStatus X cc (complianceNamespace X) = Inr (CompleteStatus X)"
    and rr: "RetrieveResults X cc (complianceNamespace X) = (reader, errch)"
    and fail: "gzip_NewReader X (ret_reader (untarResults reader)) = Returns (Inl cause)
               \<and> context = ''could not create a gzip reader for compliance results ''
               \<and> did = [call_untarResults, call_gzip_NewReader]
             \<or> (\<exists>gzr. gzip_NewReader X (ret_reader (untarResults reader)) = Returns (Inr gzr)
                   \<and> GetTests X cc gzr ''all'' = Inl cause)
               \<and> context = ''could not get the results of the compliance tests from the archive''
               \<and> did = [call_untarResults, call_gzip_NewReader, call_GetTests ''all'']"
  shows "task_B X cc reader = (Returns (Some (errors_Wrap cause context)), did)
    \<and> snd (Run X) = call_RetrieveResults (complianceNamespace X) # did
    \<and> call_filterTests \<notin> set (snd (Run X))
    \<and> call_sort_Sort \<notin> set (snd (Run X))
    \<and> (\<forall>table. call_printResults table \<notin> set (snd (Run X)))
    \<and> (recv errch = Returns None \<or> (\<exists>e. recv errch = Returns (Some e)) \<and> \<not> first_done_A X
          \<longrightarrow> fst (Run X) = Returns (Some (errors_Wrap (errors_Wrap cause context)
                                 ''failed to retrieve the results'')))
    \<and> (\<forall>e. recv errch = Returns (Some e) \<and> first_done_A X
          \<longrightarrow> fst (Run X) = Returns (Some (errors_Wrap e ''failed to retrieve the results'')))
    \<and> (recv errch = Blocks \<longrightarrow> fst (Run X) = Blocks)"
proof -
  have b: "task_B X cc reader = (Returns (Some (errors_Wrap cause context)), did)"
    using fail task_B_gzip_fails [of X reader cause cc] task_B_parse_fails [of X reader _ cc cause]
    by auto
  have run: "Run X =
     (case eg_Wait (first_done_A X) (recv errch) (Returns (Some (errors_Wrap cause context))) of
        Blocks \<Rightarrow> Blocks
      | Panics \<Rightarrow> Panics
      | Returns None \<Rightarrow> Returns None
      | Returns (Some err) \<Rightarrow> Returns (Some (errors_Wrap err ''failed to retrieve the results'')),
      call_RetrieveResults (complianceNamespace X) # did)"
    using Run_complete [OF cc st rr] b by simp
  have did: "did = [call_untarResults, call_gzip_NewReader]
             \<or> did = [call_untarResults, call_gzip_NewReader, call_GetTests ''all'']"
    using fail by auto
  have t: "snd (Run X) = call_RetrieveResults (complianceNamespace X) # did"
    by (simp add: run)
  have n: "call_filterTests \<notin> set (snd (Run X))" "call_sort_Sort \<notin> set (snd (Run X))"
    "\<forall>table. call_printResults table \<notin> set (snd (Run X))"
    using did by (auto simp: t)
  have r1: "recv errch = Returns None \<or> (\<exists>e. recv errch = Returns (Some e)) \<and> \<not> first_done_A X
          \<longrightarrow> fst (Run X) = Returns (Some (errors_Wrap (errors_Wrap cause context)
                                 ''failed to retrieve the results''))"
    by (auto simp: run eg_Wait_simps)
  have r2: "\<forall>e. recv errch = Returns (Some e) \<and> first_done_A X
          \<longrightarrow> fst (Run X) = Returns (Some (errors_Wrap e ''failed to retrieve the results''))"
    by (auto simp: run eg_Wait_simps)
  have r3: "recv errch = Blocks \<longrightarrow> fst (Run X) = Blocks"
    by (auto simp: run eg_Wait_simps)
  from b t n r1 r2 r3 show ?thesis by blast
qed

lemmas untar_eval =
  untarResults_def HasSuffix_def copy_task_def io_Copy_def io_Pipe_def pipe_Write_def
  pipe_Close_def send_def close_chan_def make_chan_def recv_def Let_def
  entry_log_def entry_results_def entry_truncated_def entry_not_gzip_def

theorem Run_decompress_or_parse_fails_witness:
  "gzip_NewReader example_env
      (ret_reader (untarResults \<lparr>entries = [entry_log, entry_not_gzip], ending = io_EOF\<rparr>))
     = Returns (Inl (errors_New ''gzip: invalid header''))
   \<and> recv (Some \<lparr>cap = 1, buf = [], is_closed = True\<rparr>) = Returns None
   \<and> Run (example_env\<lparr>RetrieveResults := (\<lambda>cc namespace.
          (\<lparr>entries = [entry_log, entry_not_gzip], ending = io_EOF\<rparr>,
           Some \<lparr>cap = 1, buf = [], is_closed = True\<rparr>))\<rparr>)
       = (Returns (Some (errors_Wrap
            (errors_Wrap (errors_New ''gzip: invalid header'')
               ''could not create a gzip reader for compliance results '')
            ''failed to retrieve the results'')),
          [call_RetrieveResults ''jx-compliance'', call_untarResults, call_gzip_NewReader])
   \<and> Run (example_env\<lparr>GetTests := (\<lambda>cc gzr kind. Inl (errors_New ''no test results''))\<rparr>)
       = (Returns (Some (errors_Wrap
            (errors_Wrap (errors_New ''no test results'')
               ''could not get the results of the compliance tests from the archive'')
            ''failed to retrieve the results'')),
          [call_RetrieveResults ''jx-compliance'', call_untarResults, call_gzip_NewReader,
           call_GetTests ''all''])"
proof -
  let ?bad = "\<lparr>entries = [entry_log, entry_not_gzip], ending = io_EOF\<rparr>"
  let ?good = "\<lparr>entries = [entry_log, entry_results], ending = io_EOF\<rparr>"
  let ?ch = "Some \<lparr>cap = 1, buf = [], is_closed = True\<rparr>"
  let ?X1 = "example_env\<lparr>RetrieveResults := (\<lambda>cc namespace. (?bad, ?ch))\<rparr>"
  let ?X2 = "example_env\<lparr>GetTests := (\<lambda>cc gzr kind. Inl (errors_New ''no test results''))\<rparr>"
  have u1: "ret_reader (untarResults ?bad)
              = Some \<lparr>written = [0x68, 0x65, 0x6c, 0x6c, 0x6f, 0x2c, 0x20, 0x77, 0x6f, 0x72, 0x6c, 0x64],
                      write_closed = True\<rparr>"
    by (simp add: untar_eval)
  have u2: "ret_reader (untarResults ?good)
              = Some \<lparr>written = [0x1f, 0x8b, 0x08, 0x00, 0x00, 0x00, 0x00, 0x00, 0x00, 0x03,
                                 0x03, 0x00, 0x00, 0x00, 0x00, 0x00, 0x00, 0x00, 0x00, 0x00],
                      write_closed = True\<rparr>"
    by (simp add: untar_eval)
  have g1: "gzip_NewReader example_env (ret_reader (untarResults ?bad))
              = Returns (Inl (errors_New ''gzip: invalid header''))"
    by (simp add: u1 example_env_def example_gzip_NewReader_def)
  have g2: "gzip_NewReader example_env (ret_reader (untarResults ?good))
              = Returns (Inr [0x03, 0x00, 0x00, 0x00, 0x00, 0x00, 0x00, 0x00, 0x00, 0x00])"
    by (simp add: u2 example_env_def example_gzip_NewReader_def)
  have r: "recv ?ch = Returns None" by (simp add: recv_def)
  have a1: "gzip_NewReader ?X1 (ret_reader (untarResults ?bad))
                 = Returns (Inl (errors_New ''gzip: invalid header''))
               \<and> ''could not create a gzip reader for compliance results ''
                   = ''could not create a gzip reader for compliance results ''
               \<and> [call_untarResults, call_gzip_NewReader] = [call_untarResults, call_gzip_NewReader]
             \<or> (\<exists>gzr. gzip_NewReader ?X1 (ret_reader (untarResults ?bad)) = Returns (Inr gzr)
                   \<and> GetTests ?X1 () gzr ''all'' = Inl (errors_New ''gzip: invalid header''))
               \<and> ''could not create a gzip reader for compliance results ''
                   = ''could not get the results of the compliance tests from the archive''
               \<and> [call_untarResults, call_gzip_NewReader]
                   = [call_untarResults, call_gzip_NewReader, call_GetTests ''all'']"
    using g1 by simp
  have a2: "gzip_NewReader ?X2 (ret_reader (untarResults ?good))
                 = Returns (Inl (errors_New ''no test results''))
               \<and> ''could not get the results of the compliance tests from the archive''
                   = ''could not create a gzip reader for compliance results ''
               \<and> [call_untarResults, call_gzip_NewReader, call_GetTests ''all'']
                   = [call_untarResults, call_gzip_NewReader]
             \<or> (\<exists>gzr. gzip_NewReader ?X2 (ret_reader (untarResults ?good)) = Returns (Inr gzr)
                   \<and> GetTests ?X2 () gzr ''all'' = Inl (errors_New ''no test results''))
               \<and> ''could not get the results of the compliance tests from the archive''
                   = ''could not get the results of the compliance tests from the archive''
               \<and> [call_untarResults, call_gzip_NewReader, call_GetTests ''all'']
                   = [call_untarResults, call_gzip_NewReader, call_GetTests ''all'']"
    using g2 by simp
  have w1: "Run ?X1
       = (Returns (Some (errors_Wrap
            (errors_Wrap (errors_New ''gzip: invalid header'')
               ''could not create a gzip reader for compliance results '')
            ''failed to retrieve the results'')),
          [call_RetrieveResults ''jx-compliance'', call_untarResults, call_gzip_NewReader])"
    using Run_decompress_or_parse_fails [of ?X1 "()" ?bad ?ch, OF _ _ _ a1] r
    by (simp add: example_env_def prod_eq_iff)
  have w2: "Run ?X2
       = (Returns (Some (errors_Wrap
            (errors_Wrap (errors_New ''no test results'')
               ''could not get the results of the compliance tests from the archive'')
            ''failed to retrieve the results'')),
          [call_RetrieveResults ''jx-compliance'', call_untarResults, call_gzip_NewReader,
           call_GetTests ''all''])"
    using Run_decompress_or_parse_fails [of ?X2 "()" ?good ?ch, OF _ _ _ a2] r
    by (simp add: example_env_def prod_eq_iff)
  from g1 r w1 w2 show ?thesis by simp
qed

text \<open>
  The claim C8 as stated fails where the first task has an error and finishes first:
  the decompressor fails, and what \<open>Run\<close> returns is the error of the retrieval,
  which does not wrap the error of the decompressor.
\<close>

theorem Run_first_error_wins:
  "gzip_NewReader example_env
      (ret_reader (untarResults \<lparr>entries = [entry_log, entry_not_gzip], ending = io_EOF\<rparr>))
     = Returns (Inl (errors_New ''gzip: invalid header''))
   \<and> fst (Run (example_env\<lparr>RetrieveResults := (\<lambda>cc namespace.
          (\<lparr>entries = [entry_log, entry_not_gzip], ending = io_EOF\<rparr>,
           Some \<lparr>cap = 1, buf = [Some (errors_New ''connection reset'')], is_closed = True\<rparr>))\<rparr>))
       = Returns (Some (errors_Wrap (errors_New ''connection reset'')
                          ''failed to retrieve the results''))
   \<and> \<not> wraps (errors_Wrap (errors_New ''connection reset'') ''failed to retrieve the results'')
              (errors_New ''gzip: invalid header'')"
  by (simp add: Run_def task_B_def example_env_def example_gzip_NewReader_def untar_eval
      eg_Wait_def)

subsection \<open>The error channel that untarResults returns\<close>

text \<open>
  \<open>untarResults\<close> returns the \<open>nil\<close> channel exactly when it has found an entry to
  copy. The second task of \<open>Run\<close> receives from that channel after it has printed the
  table: it then never returns, and so it returns neither \<open>nil\<close> nor an error of the
  copy; \<open>Run\<close> does not return \<open>nil\<close> for any archive that holds results. When no
  entry is found, the reader returned is \<open>nil\<close>, and the decompressor is called on it
  before the channel is read. No send on \<open>ec\<close> finds its buffer full.
\<close>

lemma untarResults_loop_errch:
  "ret_errch (untarResults_loop ec es err) = None
     \<longleftrightarrow> (\<exists>e\<in>set es. HasSuffix (hdr_Name e) ''.tar.gz'')"
  by (induction es) (simp_all add: case_prod_unfold Let_def)

lemma untarResults_match_nil_channel:
  "ret_errch (untarResults src) = None
     \<longleftrightarrow> (\<exists>e\<in>set (entries src). HasSuffix (hdr_Name e) ''.tar.gz'')"
  by (simp add: untarResults_def untarResults_loop_errch)

lemma untarResults_loop_capacity:
  assumes "buf ec = []" and "cap ec = 1"
  shows "(\<forall>c. ret_errch (untarResults_loop ec es err) = Some c \<longrightarrow> length (buf c) \<le> cap c)
       \<and> (\<forall>c. task_ec (untarResults_loop ec es err) = Some c \<longrightarrow> length (buf c) \<le> cap c)"
  using assms
  by (induction es)
     (auto simp: send_def close_chan_def copy_task_def io_Copy_def case_prod_unfold Let_def
        split: option.splits)

lemma untarResults_capacity:
  "(\<forall>c. ret_errch (untarResults src) = Some c \<longrightarrow> length (buf c) \<le> cap c)
   \<and> (\<forall>c. task_ec (untarResults src) = Some c \<longrightarrow> length (buf c) \<le> cap c)"
  unfolding untarResults_def Let_def
  by (rule untarResults_loop_capacity) (simp_all add: make_chan_def)

lemma task_B_after_match:
  assumes "\<exists>e\<in>set (entries reader). HasSuffix (hdr_Name e) ''.tar.gz''"
  shows "fst (task_B X cc reader) \<noteq> Returns None
    \<and> (\<forall>err. fst (task_B X cc reader) \<noteq> Returns (Some (errors_Wrap err
            ''could not extract the compliance results from archive'')))"
proof -
  have "ret_errch (untarResults reader) = None"
    using assms by (simp add: untarResults_match_nil_channel)
  then show ?thesis
    by (auto simp: task_B_def Let_def recv_def case_prod_unfold
        split: sum.splits outcome.splits option.splits)
qed

lemma Run_never_succeeds_after_match:
  assumes "CreateComplianceClient X = Inr cc"
    and "GetStatus X cc (complianceNamespace X) = Inr (CompleteStatus X)"
    and "RetrieveResults X cc (complianceNamespace X) = (reader, errch)"
    and "\<exists>e\<in>set (entries reader). HasSuffix (hdr_Name e) ''.tar.gz''"
  shows "fst (Run X) \<noteq> Returns None"
proof -
  have b: "fst (task_B X cc reader) \<noteq> Returns None"
    using task_B_after_match [OF assms(4), of X cc] by blast
  show ?thesis
    using b unfolding Run_complete [OF assms(1,2,3)]
    by (cases "recv errch"; cases "fst (task_B X cc reader)")
       (auto simp: eg_Wait_def split: option.splits)
qed

lemma task_B_blocks:
  assumes "ret_errch (untarResults reader) = None"
    and "gzip_NewReader X (ret_reader (untarResults reader)) = Returns (Inr gzr)"
    and "GetTests X cc gzr ''all'' = Inr parsed"
  shows "fst (task_B X cc reader) = Blocks"
proof -
  obtain h testResults where p: "parsed = (h, testResults)" by (cases parsed)
  obtain h1 out where f: "filterTests (\<lambda>tc. \<not> Skipped (preds X) tc) h testResults = (h1, out)"
    by (cases "filterTests (\<lambda>tc. \<not> Skipped (preds X) tc) h testResults")
  obtain h2 where s: "sort_in_place (preds X) h1 out = Some h2"
    using sort_in_place_returns [of "preds X" h1 out] by auto
  show ?thesis
    using assms p f s by (simp add: task_B_def Let_def recv_def)
qed

lemma Run_blocks:
  assumes "CreateComplianceClient X = Inr cc"
    and "GetStatus X cc (complianceNamespace X) = Inr (CompleteStatus X)"
    and "RetrieveResults X cc (complianceNamespace X) = (reader, errch)"
    and "fst (task_B X cc reader) = Blocks"
    and "recv errch = Returns ea"
  shows "fst (Run X) = Blocks"
  unfolding Run_complete [OF assms(1,2,3)] using assms(4,5)
  by (simp add: eg_Wait_simps)

lemma Run_panics:
  assumes "CreateComplianceClient X = Inr cc"
    and "GetStatus X cc (complianceNamespace X) = Inr (CompleteStatus X)"
    and "RetrieveResults X cc (complianceNamespace X) = (reader, errch)"
    and "gzip_NewReader X (ret_reader (untarResults reader)) = Panics"
  shows "fst (Run X) = Panics"
  unfolding Run_complete [OF assms(1,2,3)] task_B_gzip_panics [OF assms(4)]
  by (simp add: eg_Wait_simps)

text \<open>
  Claim C1, at two archives. (1) The archive holds no nested archive: \<open>untarResults\<close>
  returns the \<open>nil\<close> reader, with the "not found" error on the channel; the
  decompressor is called on the \<open>nil\<close> reader and panics, and \<open>Run\<close> returns nothing.
  (2) The archive holds the nested archive with a read error after fourteen bytes: the
  copy fails, its error is sent on \<open>ec\<close>, and \<open>untarResults\<close> returns the \<open>nil\<close>
  channel; the header of the nested archive is complete and the decompressor is
  constructed; then, whatever slice the parser returns, \<open>Run\<close> never returns, and
  whatever error the parser returns, \<open>Run\<close> returns that error in the context of the
  parser.
\<close>

theorem Run_loses_untar_errors:
  "ret_reader (untarResults \<lparr>entries = [entry_log], ending = io_EOF\<rparr>) = None
   \<and> ret_errch (untarResults \<lparr>entries = [entry_log], ending = io_EOF\<rparr>)
     = Some \<lparr>cap = 1, buf = [Some (errors_New ''no compliance results archive found'')],
             is_closed = False\<rparr>
   \<and> gzip_NewReader example_env None = Panics
   \<and> fst (Run (example_env\<lparr>RetrieveResults := (\<lambda>cc namespace.
          (\<lparr>entries = [entry_log], ending = io_EOF\<rparr>,
           Some \<lparr>cap = 1, buf = [], is_closed = True\<rparr>))\<rparr>)) = Panics
   \<and> task_ec (untarResults \<lparr>entries = [entry_log, entry_truncated], ending = io_EOF\<rparr>)
     = Some \<lparr>cap = 1, buf = [Some (errors_New ''unexpected EOF'')], is_closed = True\<rparr>
   \<and> ret_errch (untarResults \<lparr>entries = [entry_log, entry_truncated], ending = io_EOF\<rparr>) = None
   \<and> gzip_NewReader example_env
        (ret_reader (untarResults \<lparr>entries = [entry_log, entry_truncated], ending = io_EOF\<rparr>))
     = Returns (Inr [0x03, 0x00, 0x00, 0x00])
   \<and> (\<forall>parsed. fst (Run (example_env\<lparr>RetrieveResults := (\<lambda>cc namespace.
          (\<lparr>entries = [entry_log, entry_truncated], ending = io_EOF\<rparr>,
           Some \<lparr>cap = 1, buf = [], is_closed = True\<rparr>)),
          GetTests := (\<lambda>cc gzr kind. Inr parsed)\<rparr>)) = Blocks)
   \<and> (\<forall>e. fst (Run (example_env\<lparr>RetrieveResults := (\<lambda>cc namespace.
          (\<lparr>entries = [entry_log, entry_truncated], ending = io_EOF\<rparr>,
           Some \<lparr>cap = 1, buf = [], is_closed = True\<rparr>)),
          GetTests := (\<lambda>cc gzr kind. Inl e)\<rparr>))
        = Returns (Some (errors_Wrap
            (errors_Wrap e ''could not get the results of the compliance tests from the archive'')
            ''failed to retrieve the results'')))"
proof -
  let ?cut = "\<lparr>entries = [entry_log, entry_truncated], ending = io_EOF\<rparr>"
  let ?none = "\<lparr>entries = [entry_log], ending = io_EOF\<rparr>"
  let ?ch = "Some \<lparr>cap = 1, buf = [], is_closed = True\<rparr>"
  have r: "recv ?ch = Returns None" by (simp add: recv_def)
  have v: "untarResults ?none
     = \<lparr>ret_reader = None,
        ret_errch = Some \<lparr>cap = 1, buf = [Some (errors_New ''no compliance results archive found'')],
             is_closed = False\<rparr>,
        task_ec = None, unvisited = []\<rparr>"
    by (simp add: untar_eval)
  have p: "gzip_NewReader example_env None = Panics"
    by (simp add: example_env_def example_gzip_NewReader_def)
  have r1: "fst (Run (example_env\<lparr>RetrieveResults := (\<lambda>cc namespace. (?none, ?ch))\<rparr>)) = Panics"
    by (rule Run_panics [where cc = "()" and reader = ?none and errch = ?ch])
       (simp_all add: v, simp_all add: example_env_def example_gzip_NewReader_def)
  have u: "untarResults ?cut
     = \<lparr>ret_reader = Some \<lparr>written = [0x1f, 0x8b, 0x08, 0x00, 0x00, 0x00, 0x00, 0x00, 0x00, 0x03,
                                     0x03, 0x00, 0x00, 0x00],
                          write_closed = True\<rparr>,
        ret_errch = None,
        task_ec = Some \<lparr>cap = 1, buf = [Some (errors_New ''unexpected EOF'')], is_closed = True\<rparr>,
        unvisited = []\<rparr>"
    by (simp add: untar_eval)
  have g: "gzip_NewReader example_env (ret_reader (untarResults ?cut))
             = Returns (Inr [0x03, 0x00, 0x00, 0x00])"
    by (simp add: u example_env_def example_gzip_NewReader_def)
  have b: "fst (Run (example_env\<lparr>RetrieveResults := (\<lambda>cc namespace. (?cut, ?ch)),
                                 GetTests := (\<lambda>cc gzr kind. Inr parsed)\<rparr>)) = Blocks"
    for parsed
  proof -
    let ?X = "example_env\<lparr>RetrieveResults := (\<lambda>cc namespace. (?cut, ?ch)),
                          GetTests := (\<lambda>cc gzr kind. Inr parsed)\<rparr>"
    have gx: "gzip_NewReader ?X (ret_reader (untarResults ?cut))
                = Returns (Inr [0x03, 0x00, 0x00, 0x00])"
      using g by simp
    have tb: "fst (task_B ?X () ?cut) = Blocks"
      by (rule task_B_blocks [OF _ gx, where parsed = parsed]) (simp_all add: u)
    show ?thesis
      by (rule Run_blocks [OF _ _ _ tb r]) (simp_all add: example_env_def)
  qed
  have f: "fst (Run (example_env\<lparr>RetrieveResults := (\<lambda>cc namespace. (?cut, ?ch)),
                                 GetTests := (\<lambda>cc gzr kind. Inl e)\<rparr>))
        = Returns (Some (errors_Wrap
            (errors_Wrap e ''could not get the results of the compliance tests from the archive'')
            ''failed to retrieve the results''))"
    for e
  proof -
    let ?X = "example_env\<lparr>RetrieveResults := (\<lambda>cc namespace. (?cut, ?ch)),
                          GetTests := (\<lambda>cc gzr kind. Inl e)\<rparr>"
    have gx: "gzip_NewReader ?X (ret_reader (untarResults ?cut))
                = Returns (Inr [0x03, 0x00, 0x00, 0x00])"
      using g by simp
    have tb: "task_B ?X () ?cut =
       (Returns (Some (errors_Wrap e
           ''could not get the results of the compliance tests from the archive'')),
        [call_untarResults, call_gzip_NewReader, call_GetTests ''all''])"
      by (rule task_B_parse_fails [OF gx]) simp
    have rc: "Run ?X =
       (case eg_Wait (first_done_A ?X) (recv ?ch) (fst (task_B ?X () ?cut)) of
          Blocks \<Rightarrow> Blocks
        | Panics \<Rightarrow> Panics
        | Returns None \<Rightarrow> Returns None
        | Returns (Some err) \<Rightarrow> Returns (Some (errors_Wrap err ''failed to retrieve the results'')),
        call_RetrieveResults (complianceNamespace ?X) # snd (task_B ?X () ?cut))"
      by (rule Run_complete) (simp_all add: example_env_def)
    show ?thesis unfolding rc tb r by (simp add: eg_Wait_simps)
  qed
  from v p r1 u g b f show ?thesis by simp
qed

text \<open>
  Claim C2, at the archive that holds the log file and the nested archive. The
  background task closes the pipe and the channel \<open>ec\<close>, and a receive on \<open>ec\<close> returns;
  the channel that \<open>untarResults\<close> returns is \<open>nil\<close>, and a receive on it never returns.
\<close>

theorem untarResults_returns_nil_channel:
  "untarResults \<lparr>entries = [entry_log, entry_results], ending = io_EOF\<rparr>
     = \<lparr>ret_reader = Some \<lparr>written = [0x1f, 0x8b, 0x08, 0x00, 0x00, 0x00, 0x00, 0x00, 0x00, 0x03,
                                     0x03, 0x00, 0x00, 0x00, 0x00, 0x00, 0x00, 0x00, 0x00, 0x00],
                          write_closed = True\<rparr>,
        ret_errch = None,
        task_ec = Some \<lparr>cap = 1, buf = [], is_closed = True\<rparr>,
        unvisited = []\<rparr>
   \<and> recv (task_ec (untarResults \<lparr>entries = [entry_log, entry_results], ending = io_EOF\<rparr>))
     = Returns None
   \<and> recv (ret_errch (untarResults \<lparr>entries = [entry_log, entry_results], ending = io_EOF\<rparr>))
     = Blocks
   \<and> fst (Run example_env) = Blocks"
proof -
  let ?src = "\<lparr>entries = [entry_log, entry_results], ending = io_EOF\<rparr>"
  let ?ch = "Some \<lparr>cap = 1, buf = [], is_closed = True\<rparr>"
  have r: "recv ?ch = Returns None" by (simp add: recv_def)
  have u: "untarResults ?src
     = \<lparr>ret_reader = Some \<lparr>written = [0x1f, 0x8b, 0x08, 0x00, 0x00, 0x00, 0x00, 0x00, 0x00, 0x03,
                                     0x03, 0x00, 0x00, 0x00, 0x00, 0x00, 0x00, 0x00, 0x00, 0x00],
                          write_closed = True\<rparr>,
        ret_errch = None,
        task_ec = Some \<lparr>cap = 1, buf = [], is_closed = True\<rparr>,
        unvisited = []\<rparr>"
    by (simp add: untar_eval)
  have b: "fst (task_B example_env () ?src) = Blocks"
    by (rule task_B_blocks [where gzr = "[0x03, 0x00, 0x00, 0x00, 0x00, 0x00, 0x00, 0x00, 0x00, 0x00]"
          and parsed = "([[]], Slice 0)"])
       (simp_all add: u example_env_def example_gzip_NewReader_def example_GetTests_def)
  have run: "fst (Run example_env) = Blocks"
    by (rule Run_blocks [OF _ _ _ b r]) (simp_all add: example_env_def)
  from u run show ?thesis by (simp add: recv_def)
qed

end
